theory Spec2Isabelle
  imports Main
begin

section \<open>JavaScript values\<close>

text \<open>
  The server is one JavaScript file, \<^verbatim>\<open>server.js\<close>. The listing inside
  \<^verbatim>\<open>SETUP.md\<close> is the same file with the \<^verbatim>\<open>DEMO_MODE\<close> gates and the demo
  generator added; the model follows that listing, and \<^verbatim>\<open>src/server.js\<close> is what it
  does with \<^verbatim>\<open>DEMO_MODE\<close> false (its \<^verbatim>\<open>/events\<close> handshake, which has one field
  less, is modelled separately as \<open>get_events_plain\<close>).

  Values that flow through the handlers are JSON values and \<^verbatim>\<open>undefined\<close>. Numbers
  only matter through their truthiness and are modelled as integers. Strings are byte
  lists; non-ASCII literals of the source are written as their UTF-8 bytes.
\<close>

datatype jv =
    JUndefined
  | JNull
  | JBool bool
  | JNum int
  | JStr string
  | JArr "jv list"
  | JObj "(string \<times> jv) list"

text \<open>JavaScript truthiness, as used by \<^verbatim>\<open>!x\<close> and \<^verbatim>\<open>a || b\<close>.\<close>

fun truthy :: "jv \<Rightarrow> bool" where
  "truthy JUndefined = False"
| "truthy JNull = False"
| "truthy (JBool b) = b"
| "truthy (JNum n) = (n \<noteq> 0)"
| "truthy (JStr s) = (s \<noteq> [])"
| "truthy (JArr xs) = True"
| "truthy (JObj fs) = True"

definition js_or :: "jv \<Rightarrow> jv \<Rightarrow> jv" where
  "js_or a b = (if truthy a then a else b)"

text \<open>
  Property read \<^verbatim>\<open>v.k\<close> for the keys the handlers read (\<^verbatim>\<open>title\<close>, \<^verbatim>\<open>message\<close>,
  \<^verbatim>\<open>type\<close>, \<^verbatim>\<open>data\<close>, \<^verbatim>\<open>messageId\<close>, \<^verbatim>\<open>publishTime\<close>): \<open>None\<close> is the TypeError
  raised on \<^verbatim>\<open>null\<close> and \<^verbatim>\<open>undefined\<close>; an object yields the field (the last one
  when \<^verbatim>\<open>JSON.parse\<close> saw the key twice) or \<^verbatim>\<open>undefined\<close>; every other value
  has no such property and yields \<^verbatim>\<open>undefined\<close>.
\<close>

fun js_get :: "jv \<Rightarrow> string \<Rightarrow> jv option" where
  "js_get JUndefined k = None"
| "js_get JNull k = None"
| "js_get (JObj fs) k =
     Some (case map_of (rev fs) k of None \<Rightarrow> JUndefined | Some v \<Rightarrow> v)"
| "js_get v k = Some JUndefined"

text \<open>Template-literal rendering of a non-negative integer (\<^verbatim>\<open>${Date.now()}\<close>, \<^verbatim>\<open>${index}\<close>).\<close>

definition digit :: "nat \<Rightarrow> char" where
  "digit d = ''0123456789'' ! (d mod 10)"

fun decimal :: "nat \<Rightarrow> string" where
  "decimal n = (if n < 10 then [digit n] else decimal (n div 10) @ [digit (n mod 10)])"

section \<open>The \<^verbatim>\<open>Map\<close> of connected clients\<close>

text \<open>
  A JavaScript \<^verbatim>\<open>Map\<close> is a list of entries in insertion order. \<^verbatim>\<open>delete\<close> empties
  the entry in place (the slot stays, so positions are stable during an iteration),
  \<^verbatim>\<open>set\<close> overwrites the value of a present key where it stands and appends a new
  key, \<^verbatim>\<open>size\<close> counts the entries that are not empty. \<open>None\<close> is an emptied slot.
\<close>

type_synonym 'v jsmap = "(string \<times> 'v) option list"

fun map_delete :: "string \<Rightarrow> 'v jsmap \<Rightarrow> 'v jsmap" where
  "map_delete k [] = []"
| "map_delete k (None # m) = None # map_delete k m"
| "map_delete k (Some (k', v) # m) =
     (if k' = k then None # m else Some (k', v) # map_delete k m)"

fun map_set :: "string \<Rightarrow> 'v \<Rightarrow> 'v jsmap \<Rightarrow> 'v jsmap" where
  "map_set k v [] = [Some (k, v)]"
| "map_set k v (None # m) = None # map_set k v m"
| "map_set k v (Some (k', v') # m) =
     (if k' = k then Some (k, v) # m else Some (k', v') # map_set k v m)"

text \<open>The live entries, in iteration order.\<close>

fun entries :: "'v jsmap \<Rightarrow> (string \<times> 'v) list" where
  "entries [] = []"
| "entries (None # m) = entries m"
| "entries (Some e # m) = e # entries m"

definition map_keys :: "'v jsmap \<Rightarrow> string list" where
  "map_keys m = map fst (entries m)"

definition map_size :: "'v jsmap \<Rightarrow> nat" where
  "map_size m = length (entries m)"

text \<open>Keys of a \<^verbatim>\<open>Map\<close> are unique at any instant.\<close>

definition wf_map :: "'v jsmap \<Rightarrow> bool" where
  "wf_map m = distinct (map_keys m)"

section \<open>Sinks and server state\<close>

text \<open>
  A frame is one server-sent event \<^verbatim>\<open>data: ${JSON.stringify(v)}\n\n\<close>; the model keeps
  the value \<open>v\<close> that is serialised.
\<close>

datatype frame = SSE jv

text \<open>
  A sink is the response object \<^verbatim>\<open>res\<close> of one \<^verbatim>\<open>/events\<close> request. It belongs to
  the HTTP layer, not to this repository. All the code can tell of a \<^verbatim>\<open>write\<close> is
  whether it throws or returns, so the model keeps these apart from what reaches the
  client:
  \<^item> \<open>failing\<close>: \<^verbatim>\<open>write\<close> throws;
  \<^item> \<open>frames\<close>: the frames of the \<^verbatim>\<open>write\<close> calls that returned, oldest first;
  \<^item> \<open>closed\<close>: the connection is gone; \<^verbatim>\<open>write\<close> on the destroyed response
    returns \<^verbatim>\<open>false\<close> without throwing, and the frame goes nowhere;
  \<^item> \<open>received\<close>: the frames that reached the client, that is, those written
    while the connection was open.

  Response objects live in a store indexed by handles, so that the registry and the
  timers can refer to the same object.
\<close>

record sink =
  failing :: bool
  closed :: bool
  frames :: "frame list"
  received :: "frame list"

type_synonym handle = nat

definition sink_write :: "sink \<Rightarrow> frame \<Rightarrow> sink option" where
  "sink_write s fr =
     (if failing s then None
      else Some (s\<lparr>frames := frames s @ [fr],
                   received := (if closed s then received s else received s @ [fr])\<rparr>))"

text \<open>
  The calls that returned, in program order, on response objects, on Pub/Sub messages
  and, for \<^verbatim>\<open>/events\<close>, on the \<^verbatim>\<open>clients\<close> map: \<^verbatim>\<open>res.write(frame)\<close>,
  \<^verbatim>\<open>message.ack()\<close> and \<^verbatim>\<open>clients.set(clientId, res)\<close>.
\<close>

datatype effect =
    Wrote handle frame
  | Acked string
  | Registered string handle

text \<open>One line of console output; the comment gives the source statement.\<close>

datatype log_line =
    LogPubSubReceived jv            \<comment> \<open>\<^verbatim>\<open>console.log('Pub/Sub... :', data)\<close> in the pull handler\<close>
  | LogMessageError                 \<comment> \<open>\<^verbatim>\<open>console.error\<close> in the pull handler's catch\<close>
  | LogSendError string             \<comment> \<open>\<^verbatim>\<open>console.error\<close> with the client id, in broadcast\<close>
  | LogDelivered nat                \<comment> \<open>\<^verbatim>\<open>console.log(`${sentCount}...`)\<close> at the end of broadcast\<close>
  | LogClientConnected string nat   \<comment> \<open>client id and \<^verbatim>\<open>clients.size\<close>\<close>
  | LogClientDisconnected string nat
  | LogPublished string             \<comment> \<open>the message id returned by the topic\<close>
  | LogPublishError
  | LogPushReceived jv
  | LogPushError

text \<open>A demo sample \<^verbatim>\<open>{ title, message, type }\<close> and the closures given to \<^verbatim>\<open>setTimeout\<close>.\<close>

record sample =
  s_title :: string
  s_message :: string
  s_type :: string

datatype task =
    WelcomeTask handle
  | DemoTask handle sample nat

record timer =
  due :: nat
  task :: task

text \<open>
  The module-level state: the constant \<^verbatim>\<open>DEMO_MODE\<close>, whether \<^verbatim>\<open>topic\<close> and
  \<^verbatim>\<open>subscription\<close> are set, the \<^verbatim>\<open>clients\<close> map, and what the environment holds
  for the process: the response objects, the pending timers, the console, the payloads
  handed to \<^verbatim>\<open>topic.publishMessage\<close>, the ids of the acknowledged messages, and the
  journal of the writes, acknowledgements and registrations in the order the program
  made them.
\<close>

record server =
  DEMO_MODE :: bool
  topic :: bool
  subscription :: bool
  clients :: "handle jsmap"
  sinks :: "handle \<Rightarrow> sink"
  timers :: "timer list"
  console :: "log_line list"
  published :: "jv list"
  acked :: "string list"
  journal :: "effect list"

text \<open>What \<^verbatim>\<open>Date.now()\<close> and \<^verbatim>\<open>new Date().toISOString()\<close> return while a handler runs,
  and how \<^verbatim>\<open>topic.publishMessage\<close> settles (\<open>None\<close>: the promise rejects).\<close>

record env =
  date_now :: nat
  date_iso :: string
  publish_result :: "string option"

section \<open>Broadcast\<close>

text \<open>
  The callback of \<^verbatim>\<open>clients.forEach\<close> in \<^verbatim>\<open>broadcastToClients\<close>: write the frame and
  count it, or log the error and delete the client.
\<close>

definition deliver :: "frame \<Rightarrow> string \<Rightarrow> handle \<Rightarrow> server \<times> nat \<Rightarrow> server \<times> nat" where
  "deliver fr clientId client p =
     (case sink_write (sinks (fst p) client) fr of
        Some s' \<Rightarrow>
          ((fst p)\<lparr>sinks := (sinks (fst p))(client := s'),
                   journal := journal (fst p) @ [Wrote client fr]\<rparr>, snd p + 1)
      | None \<Rightarrow>
          ((fst p)\<lparr>console := console (fst p) @ [LogSendError clientId],
                   clients := map_delete clientId (clients (fst p))\<rparr>, snd p))"

lemma length_map_delete: "length (map_delete k m) = length m"
  by (induction k m rule: map_delete.induct) auto

lemma length_clients_deliver:
  "length (clients (fst (deliver fr k h p))) = length (clients (fst p))"
  by (simp add: deliver_def length_map_delete split: option.splits)

text \<open>
  \<^verbatim>\<open>Map.prototype.forEach\<close> walks the live entry list by position: it re-reads the
  list and its length after every callback, skips emptied slots and would reach entries
  appended meanwhile.
\<close>

function forEach_from :: "frame \<Rightarrow> nat \<Rightarrow> server \<times> nat \<Rightarrow> server \<times> nat" where
  "forEach_from fr index p =
     (if index < length (clients (fst p)) then
        (case clients (fst p) ! index of
           None \<Rightarrow> forEach_from fr (index + 1) p
         | Some (clientId, client) \<Rightarrow>
             forEach_from fr (index + 1) (deliver fr clientId client p))
      else p)"
  by pat_completeness auto
termination
  by (relation "measure (\<lambda>(fr, index, p). length (clients (fst p)) - index)")
     (auto simp: length_clients_deliver)

declare forEach_from.simps [simp del]

text \<open>
  \<^verbatim>\<open>broadcastToClients(notification)\<close>. The function has no \<^verbatim>\<open>return\<close> statement:
  its value is \<^verbatim>\<open>undefined\<close>, and \<^verbatim>\<open>sentCount\<close> only reaches the console.
\<close>

definition broadcastToClients :: "jv \<Rightarrow> server \<Rightarrow> jv \<times> server" where
  "broadcastToClients notification st =
     (let (st', sentCount) = forEach_from (SSE notification) 0 (st, 0)
      in (JUndefined, st'\<lparr>console := console st' @ [LogDelivered sentCount]\<rparr>))"

section \<open>String literals of the source\<close>

text \<open>The Japanese literals, as UTF-8 bytes; the comment gives an English gloss.\<close>

definition default_title :: string where
  \<comment> \<open>the default title, "notification"\<close>
  "default_title =
     [CHR 0xE9, CHR 0x80, CHR 0x9A, CHR 0xE7, CHR 0x9F, CHR 0xA5]"

definition connected_message :: string where
  \<comment> \<open>"connected"\<close>
  "connected_message =
     [CHR 0xE6, CHR 0x8E, CHR 0xA5, CHR 0xE7, CHR 0xB6, CHR 0x9A, CHR 0xE3, CHR 0x81,
      CHR 0x97, CHR 0xE3, CHR 0x81, CHR 0xBE, CHR 0xE3, CHR 0x81, CHR 0x97, CHR 0xE3,
      CHR 0x81, CHR 0x9F]"

definition message_required :: string where
  \<comment> \<open>"a message is required"\<close>
  "message_required =
     [CHR 0xE3, CHR 0x83, CHR 0xA1, CHR 0xE3, CHR 0x83, CHR 0x83, CHR 0xE3, CHR 0x82,
      CHR 0xBB, CHR 0xE3, CHR 0x83, CHR 0xBC, CHR 0xE3, CHR 0x82, CHR 0xB8, CHR 0xE3,
      CHR 0x81, CHR 0xAF, CHR 0xE5, CHR 0xBF, CHR 0x85, CHR 0xE9, CHR 0xA0, CHR 0x88,
      CHR 0xE3, CHR 0x81, CHR 0xA7, CHR 0xE3, CHR 0x81, CHR 0x99]"

definition demo_forbidden :: string where
  \<comment> \<open>"notifications cannot be sent in demo mode"\<close>
  "demo_forbidden =
     [CHR 0xE3, CHR 0x83, CHR 0x87, CHR 0xE3, CHR 0x83, CHR 0xA2, CHR 0xE3, CHR 0x83,
      CHR 0xA2, CHR 0xE3, CHR 0x83, CHR 0xBC, CHR 0xE3, CHR 0x83, CHR 0x89, CHR 0xE3,
      CHR 0x81, CHR 0xA7, CHR 0xE3, CHR 0x81, CHR 0xAF, CHR 0xE9, CHR 0x80, CHR 0x9A,
      CHR 0xE7, CHR 0x9F, CHR 0xA5, CHR 0xE3, CHR 0x81, CHR 0xAE, CHR 0xE9, CHR 0x80,
      CHR 0x81, CHR 0xE4, CHR 0xBF, CHR 0xA1, CHR 0xE3, CHR 0x81, CHR 0xAF, CHR 0xE3,
      CHR 0x81, CHR 0xA7, CHR 0xE3, CHR 0x81, CHR 0x8D, CHR 0xE3, CHR 0x81, CHR 0xBE,
      CHR 0xE3, CHR 0x81, CHR 0x9B, CHR 0xE3, CHR 0x82, CHR 0x93]"

definition publish_failed :: string where
  \<comment> \<open>"publishing to Pub/Sub failed"\<close>
  "publish_failed =
     [CHR 0x50, CHR 0x75, CHR 0x62, CHR 0x2F, CHR 0x53, CHR 0x75, CHR 0x62, CHR 0xE9,
      CHR 0x80, CHR 0x81, CHR 0xE4, CHR 0xBF, CHR 0xA1, CHR 0xE3, CHR 0x81, CHR 0xAB,
      CHR 0xE5, CHR 0xA4, CHR 0xB1, CHR 0xE6, CHR 0x95, CHR 0x97, CHR 0xE3, CHR 0x81,
      CHR 0x97, CHR 0xE3, CHR 0x81, CHR 0xBE, CHR 0xE3, CHR 0x81, CHR 0x97, CHR 0xE3,
      CHR 0x81, CHR 0x9F]"

definition welcome_title :: string where
  \<comment> \<open>"welcome to demo mode"\<close>
  "welcome_title =
     [CHR 0xE3, CHR 0x83, CHR 0x87, CHR 0xE3, CHR 0x83, CHR 0xA2, CHR 0xE3, CHR 0x83,
      CHR 0xA2, CHR 0xE3, CHR 0x83, CHR 0xBC, CHR 0xE3, CHR 0x83, CHR 0x89, CHR 0xE3,
      CHR 0x81, CHR 0xB8, CHR 0xE3, CHR 0x82, CHR 0x88, CHR 0xE3, CHR 0x81, CHR 0x86,
      CHR 0xE3, CHR 0x81, CHR 0x93, CHR 0xE3, CHR 0x81, CHR 0x9D]"

definition welcome_message :: string where
  \<comment> \<open>"this is a demo environment; sample notifications are shown"\<close>
  "welcome_message =
     [CHR 0xE3, CHR 0x81, CHR 0x93, CHR 0xE3, CHR 0x82, CHR 0x8C, CHR 0xE3, CHR 0x81,
      CHR 0xAF, CHR 0xE3, CHR 0x83, CHR 0x87, CHR 0xE3, CHR 0x83, CHR 0xA2, CHR 0xE7,
      CHR 0x92, CHR 0xB0, CHR 0xE5, CHR 0xA2, CHR 0x83, CHR 0xE3, CHR 0x81, CHR 0xA7,
      CHR 0xE3, CHR 0x81, CHR 0x99, CHR 0xE3, CHR 0x80, CHR 0x82, CHR 0xE3, CHR 0x82,
      CHR 0xB5, CHR 0xE3, CHR 0x83, CHR 0xB3, CHR 0xE3, CHR 0x83, CHR 0x97, CHR 0xE3,
      CHR 0x83, CHR 0xAB, CHR 0xE3, CHR 0x81, CHR 0xAE, CHR 0xE9, CHR 0x80, CHR 0x9A,
      CHR 0xE7, CHR 0x9F, CHR 0xA5, CHR 0xE3, CHR 0x81, CHR 0x8C, CHR 0xE8, CHR 0xA1,
      CHR 0xA8, CHR 0xE7, CHR 0xA4, CHR 0xBA, CHR 0xE3, CHR 0x81, CHR 0x95, CHR 0xE3,
      CHR 0x82, CHR 0x8C, CHR 0xE3, CHR 0x81, CHR 0xBE, CHR 0xE3, CHR 0x81, CHR 0x99,
      CHR 0xE3, CHR 0x80, CHR 0x82]"

definition demo_title_0 :: string where
  \<comment> \<open>title of sample 0\<close>
  "demo_title_0 =
     [CHR 0xE7, CHR 0x94, CHR 0xB0, CHR 0xE4, CHR 0xB8, CHR 0xAD, CHR 0xE3, CHR 0x81,
      CHR 0x95, CHR 0xE3, CHR 0x82, CHR 0x93]"

definition demo_message_0 :: string where
  \<comment> \<open>message of sample 0\<close>
  "demo_message_0 =
     [CHR 0xE3, CHR 0x81, CHR 0x8A, CHR 0xE7, CHR 0x96, CHR 0xB2, CHR 0xE3, CHR 0x82,
      CHR 0x8C, CHR 0xE3, CHR 0x81, CHR 0x95, CHR 0xE3, CHR 0x81, CHR 0xBE, CHR 0xE3,
      CHR 0x81, CHR 0xA7, CHR 0xE3, CHR 0x81, CHR 0x99, CHR 0xEF, CHR 0xBC, CHR 0x81,
      CHR 0xE4, CHR 0xBE, CHR 0x8B, CHR 0xE3, CHR 0x81, CHR 0xAE, CHR 0xE8, CHR 0xB3,
      CHR 0x87, CHR 0xE6, CHR 0x96, CHR 0x99, CHR 0xE3, CHR 0x80, CHR 0x81, CHR 0xE7,
      CHR 0xA2, CHR 0xBA, CHR 0xE8, CHR 0xAA, CHR 0x8D, CHR 0xE3, CHR 0x81, CHR 0xA7,
      CHR 0xE3, CHR 0x81, CHR 0x8D, CHR 0xE3, CHR 0x81, CHR 0xBE, CHR 0xE3, CHR 0x81,
      CHR 0x97, CHR 0xE3, CHR 0x81, CHR 0x9F, CHR 0xE3, CHR 0x80, CHR 0x82, CHR 0xE3,
      CHR 0x81, CHR 0x82, CHR 0xE3, CHR 0x82, CHR 0x8A, CHR 0xE3, CHR 0x81, CHR 0x8C,
      CHR 0xE3, CHR 0x81, CHR 0xA8, CHR 0xE3, CHR 0x81, CHR 0x86, CHR 0xE3, CHR 0x81,
      CHR 0x94, CHR 0xE3, CHR 0x81, CHR 0x96, CHR 0xE3, CHR 0x81, CHR 0x84, CHR 0xE3,
      CHR 0x81, CHR 0xBE, CHR 0xE3, CHR 0x81, CHR 0x99, CHR 0xE3, CHR 0x80, CHR 0x82]"

definition demo_title_1 :: string where
  \<comment> \<open>title of sample 1\<close>
  "demo_title_1 =
     [CHR 0xE4, CHR 0xBD, CHR 0x90, CHR 0xE8, CHR 0x97, CHR 0xA4, CHR 0xE3, CHR 0x81,
      CHR 0x95, CHR 0xE3, CHR 0x82, CHR 0x93]"

definition demo_message_1 :: string where
  \<comment> \<open>message of sample 1\<close>
  "demo_message_1 =
     [CHR 0xE6, CHR 0x98, CHR 0x8E, CHR 0xE6, CHR 0x97, CHR 0xA5, CHR 0xE3, CHR 0x81,
      CHR 0xAE, CHR 0xE3, CHR 0x83, CHR 0x9F, CHR 0xE3, CHR 0x83, CHR 0xBC, CHR 0xE3,
      CHR 0x83, CHR 0x86, CHR 0xE3, CHR 0x82, CHR 0xA3, CHR 0xE3, CHR 0x83, CHR 0xB3,
      CHR 0xE3, CHR 0x82, CHR 0xB0, CHR 0xE3, CHR 0x80, CHR 0x81, CHR 0x31, CHR 0x35,
      CHR 0xE6, CHR 0x99, CHR 0x82, CHR 0xE3, CHR 0x81, CHR 0x8B, CHR 0xE3, CHR 0x82,
      CHR 0x89, CHR 0xE3, CHR 0x81, CHR 0xA7, CHR 0xE3, CHR 0x82, CHR 0x88, CHR 0xE3,
      CHR 0x81, CHR 0x8B, CHR 0xE3, CHR 0x81, CHR 0xA3, CHR 0xE3, CHR 0x81, CHR 0x9F,
      CHR 0xE3, CHR 0x81, CHR 0xA7, CHR 0xE3, CHR 0x81, CHR 0x99, CHR 0xE3, CHR 0x82,
      CHR 0x88, CHR 0xE3, CHR 0x81, CHR 0xAD, CHR 0xEF, CHR 0xBC, CHR 0x9F]"

definition demo_title_2 :: string where
  \<comment> \<open>title of sample 2\<close>
  "demo_title_2 =
     [CHR 0xE5, CHR 0xB1, CHR 0xB1, CHR 0xE7, CHR 0x94, CHR 0xB0, CHR 0xE3, CHR 0x81,
      CHR 0x95, CHR 0xE3, CHR 0x82, CHR 0x93]"

definition demo_message_2 :: string where
  \<comment> \<open>message of sample 2\<close>
  "demo_message_2 =
     [CHR 0xE3, CHR 0x83, CHR 0xA9, CHR 0xE3, CHR 0x83, CHR 0xB3, CHR 0xE3, CHR 0x83,
      CHR 0x81, CHR 0xE8, CHR 0xA1, CHR 0x8C, CHR 0xE3, CHR 0x81, CHR 0x8D, CHR 0xE3,
      CHR 0x81, CHR 0xBE, CHR 0xE3, CHR 0x81, CHR 0x9B, CHR 0xE3, CHR 0x82, CHR 0x93,
      CHR 0xE3, CHR 0x81, CHR 0x8B, CHR 0xEF, CHR 0xBC, CHR 0x9F, CHR 0xE6, CHR 0x96,
      CHR 0xB0, CHR 0xE3, CHR 0x81, CHR 0x97, CHR 0xE3, CHR 0x81, CHR 0x84, CHR 0xE3,
      CHR 0x82, CHR 0xAB, CHR 0xE3, CHR 0x83, CHR 0x95, CHR 0xE3, CHR 0x82, CHR 0xA7,
      CHR 0xE3, CHR 0x81, CHR 0x8C, CHR 0xE3, CHR 0x81, CHR 0xA7, CHR 0xE3, CHR 0x81,
      CHR 0x8D, CHR 0xE3, CHR 0x81, CHR 0x9F, CHR 0xE3, CHR 0x82, CHR 0x89, CHR 0xE3,
      CHR 0x81, CHR 0x97, CHR 0xE3, CHR 0x81, CHR 0x84, CHR 0xE3, CHR 0x81, CHR 0xA7,
      CHR 0xE3, CHR 0x81, CHR 0x99]"

definition demo_title_3 :: string where
  \<comment> \<open>title of sample 3\<close>
  "demo_title_3 =
     [CHR 0xE9, CHR 0x88, CHR 0xB4, CHR 0xE6, CHR 0x9C, CHR 0xA8, CHR 0xE3, CHR 0x81,
      CHR 0x95, CHR 0xE3, CHR 0x82, CHR 0x93]"

definition demo_message_3 :: string where
  \<comment> \<open>message of sample 3\<close>
  "demo_message_3 =
     [CHR 0xE5, CHR 0x85, CHR 0x88, CHR 0xE3, CHR 0x81, CHR 0xBB, CHR 0xE3, CHR 0x81,
      CHR 0xA9, CHR 0xE3, CHR 0x81, CHR 0xAE, CHR 0xE4, CHR 0xBB, CHR 0xB6, CHR 0xE3,
      CHR 0x80, CHR 0x81, CHR 0xE7, CHR 0xA2, CHR 0xBA, CHR 0xE8, CHR 0xAA, CHR 0x8D,
      CHR 0xE3, CHR 0x81, CHR 0xA7, CHR 0xE3, CHR 0x81, CHR 0x8D, CHR 0xE3, CHR 0x81,
      CHR 0xBE, CHR 0xE3, CHR 0x81, CHR 0x97, CHR 0xE3, CHR 0x81, CHR 0x9F, CHR 0xE3,
      CHR 0x80, CHR 0x82, CHR 0xE5, CHR 0x95, CHR 0x8F, CHR 0xE9, CHR 0xA1, CHR 0x8C,
      CHR 0xE3, CHR 0x81, CHR 0xAA, CHR 0xE3, CHR 0x81, CHR 0x95, CHR 0xE3, CHR 0x81,
      CHR 0x9D, CHR 0xE3, CHR 0x81, CHR 0x86, CHR 0xE3, CHR 0x81, CHR 0xA7, CHR 0xE3,
      CHR 0x81, CHR 0x99, CHR 0xEF, CHR 0xBC, CHR 0x81]"

text \<open>\<^verbatim>\<open>DEMO_NOTIFICATIONS\<close>, the fixed script of the demo generator.\<close>

definition DEMO_NOTIFICATIONS :: "sample list" where
  "DEMO_NOTIFICATIONS =
     [\<lparr>s_title = demo_title_0, s_message = demo_message_0, s_type = ''info''\<rparr>,
      \<lparr>s_title = demo_title_1, s_message = demo_message_1, s_type = ''info''\<rparr>,
      \<lparr>s_title = demo_title_2, s_message = demo_message_2, s_type = ''success''\<rparr>,
      \<lparr>s_title = demo_title_3, s_message = demo_message_3, s_type = ''success''\<rparr>]"

section \<open>Producers\<close>

text \<open>
  The object literal \<^verbatim>\<open>{ type: 'notification', data: { id, title, message,
  notificationType, timestamp, source } }\<close> that every producer builds.
\<close>

definition notification :: "jv \<Rightarrow> jv \<Rightarrow> jv \<Rightarrow> jv \<Rightarrow> jv \<Rightarrow> string \<Rightarrow> jv" where
  "notification nid title message ntype timestamp source =
     JObj [(''type'', JStr ''notification''),
           (''data'', JObj [(''id'', nid), (''title'', title), (''message'', message),
                            (''notificationType'', ntype), (''timestamp'', timestamp),
                            (''source'', JStr source)])]"

text \<open>The message text of an envelope, \<^verbatim>\<open>notification.data.message\<close>.\<close>

definition body_of :: "jv \<Rightarrow> jv" where
  "body_of n =
     (case js_get n ''data'' of
        None \<Rightarrow> JUndefined
      | Some d \<Rightarrow> (case js_get d ''message'' of None \<Rightarrow> JUndefined | Some m \<Rightarrow> m))"

text \<open>
  Library functions the handlers call on their input: \<^verbatim>\<open>JSON.parse\<close> (\<open>None\<close>: it
  throws) and \<^verbatim>\<open>Buffer.from(d, 'base64').toString()\<close> (\<open>None\<close>: \<^verbatim>\<open>Buffer.from\<close>
  throws, as it does on \<^verbatim>\<open>undefined\<close>). They are parameters of the model.
\<close>

record platform =
  JSON_parse :: "string \<Rightarrow> jv option"
  base64_text :: "jv \<Rightarrow> string option"

text \<open>
  A message of the pull subscription: \<^verbatim>\<open>message.id\<close>, \<^verbatim>\<open>message.data.toString()\<close>
  and \<^verbatim>\<open>message.publishTime.toISOString()\<close>.
\<close>

record pubsub_message =
  msg_id :: string
  msg_data :: string
  msg_publishTime :: string

definition ack :: "pubsub_message \<Rightarrow> server \<Rightarrow> server" where
  "ack message st =
     st\<lparr>acked := acked st @ [msg_id message],
        journal := journal st @ [Acked (msg_id message)]\<rparr>"

text \<open>The \<^verbatim>\<open>catch\<close> block of \<^verbatim>\<open>handlePubSubMessage\<close>: log, then acknowledge.\<close>

definition pull_catch :: "pubsub_message \<Rightarrow> server \<Rightarrow> server" where
  "pull_catch message st = ack message (st\<lparr>console := console st @ [LogMessageError]\<rparr>)"

text \<open>
  \<^verbatim>\<open>handlePubSubMessage(message)\<close>. Inside the \<^verbatim>\<open>try\<close>: parse, log, read the three
  fields (a TypeError when the payload is \<^verbatim>\<open>null\<close>), broadcast, acknowledge.
\<close>

definition handlePubSubMessage :: "platform \<Rightarrow> pubsub_message \<Rightarrow> server \<Rightarrow> server" where
  "handlePubSubMessage P message st =
     (case JSON_parse P (msg_data message) of
        None \<Rightarrow> pull_catch message st
      | Some data \<Rightarrow>
          (let st1 = st\<lparr>console := console st @ [LogPubSubReceived data]\<rparr> in
           case js_get data ''title'' of
             None \<Rightarrow> pull_catch message st1
           | Some title \<Rightarrow>
               (case js_get data ''message'' of
                  None \<Rightarrow> pull_catch message st1
                | Some msg \<Rightarrow>
                    (case js_get data ''type'' of
                       None \<Rightarrow> pull_catch message st1
                     | Some ty \<Rightarrow>
                         ack message
                           (snd (broadcastToClients
                              (notification (JStr (msg_id message))
                                 (js_or title (JStr default_title)) msg
                                 (js_or ty (JStr ''info''))
                                 (JStr (msg_publishTime message)) ''pubsub'')
                              st1))))))"

text \<open>What a handler answers.\<close>

datatype js_error = SyntaxError | TypeError | WriteError

datatype response =
    Reply nat jv            \<comment> \<open>\<^verbatim>\<open>res.status(n).json(v)\<close>; \<^verbatim>\<open>res.json(v)\<close> is status 200\<close>
  | ReplyText nat string    \<comment> \<open>\<^verbatim>\<open>res.status(n).send(s)\<close>\<close>
  | ReplyError nat js_error \<comment> \<open>\<^verbatim>\<open>res.status(n).json({ error: error.message })\<close>\<close>
  | EventStream             \<comment> \<open>the response stays open as an event stream\<close>
  | Uncaught js_error       \<comment> \<open>the handler throws\<close>

text \<open>
  \<^verbatim>\<open>app.post('/notify')\<close>; \<open>body\<close> is \<^verbatim>\<open>req.body\<close>. Destructuring reads the three
  fields; \<^verbatim>\<open>type\<close> defaults to \<^verbatim>\<open>'info'\<close> when it is \<^verbatim>\<open>undefined\<close>.
\<close>

definition post_notify :: "env \<Rightarrow> jv \<Rightarrow> server \<Rightarrow> response \<times> server" where
  "post_notify e body st =
     (if DEMO_MODE st then
        (Reply 403 (JObj [(''error'', JStr demo_forbidden), (''demoMode'', JBool True)]), st)
      else
        case js_get body ''title'' of
          None \<Rightarrow> (Uncaught TypeError, st)
        | Some title \<Rightarrow>
        case js_get body ''message'' of
          None \<Rightarrow> (Uncaught TypeError, st)
        | Some message \<Rightarrow>
        case js_get body ''type'' of
          None \<Rightarrow> (Uncaught TypeError, st)
        | Some type0 \<Rightarrow>
          (let ntype = (if type0 = JUndefined then JStr ''info'' else type0) in
           if \<not> truthy message then
             (Reply 400 (JObj [(''error'', JStr message_required)]), st)
           else
             let ntitle = js_or title (JStr default_title);
                 notificationData =
                   JObj [(''title'', ntitle), (''message'', message), (''type'', ntype),
                         (''timestamp'', JStr (date_iso e))]
             in
             if topic st then
               (case publish_result e of
                  Some messageId \<Rightarrow>
                    (Reply 200 (JObj [(''success'', JBool True),
                                      (''messageId'', JStr messageId),
                                      (''via'', JStr ''pubsub'')]),
                     st\<lparr>published := published st @ [notificationData],
                        console := console st @ [LogPublished messageId]\<rparr>)
                | None \<Rightarrow>
                    (Reply 500 (JObj [(''error'', JStr publish_failed)]),
                     st\<lparr>published := published st @ [notificationData],
                        console := console st @ [LogPublishError]\<rparr>))
             else
               (let st1 = snd (broadcastToClients
                             (notification (JNum (int (date_now e))) ntitle message ntype
                                (JStr (date_iso e)) ''direct'')
                             st)
                in (Reply 200 (JObj [(''success'', JBool True), (''via'', JStr ''direct''),
                                     (''sentCount'', JNum (int (map_size (clients st1))))]),
                    st1))))"

text \<open>The \<^verbatim>\<open>catch\<close> block of the push endpoint: log and answer 500.\<close>

definition push_catch :: "js_error \<Rightarrow> server \<Rightarrow> response \<times> server" where
  "push_catch err st = (ReplyError 500 err, st\<lparr>console := console st @ [LogPushError]\<rparr>)"

text \<open>\<^verbatim>\<open>app.post('/pubsub/push')\<close>; \<open>body\<close> is \<^verbatim>\<open>req.body\<close>.\<close>

definition post_pubsub_push :: "platform \<Rightarrow> jv \<Rightarrow> server \<Rightarrow> response \<times> server" where
  "post_pubsub_push P body st =
     (if DEMO_MODE st then
        (Reply 403 (JObj [(''error'', JStr ''Demo mode''), (''demoMode'', JBool True)]), st)
      else
        case js_get body ''message'' of
          None \<Rightarrow> push_catch TypeError st
        | Some pubsubMessage \<Rightarrow>
          if \<not> truthy pubsubMessage then
            (Reply 400 (JObj [(''error'', JStr ''Invalid Pub/Sub message'')]), st)
          else
            case js_get pubsubMessage ''data'' of
              None \<Rightarrow> push_catch TypeError st
            | Some d \<Rightarrow>
            case base64_text P d of
              None \<Rightarrow> push_catch TypeError st
            | Some txt \<Rightarrow>
            case JSON_parse P txt of
              None \<Rightarrow> push_catch SyntaxError st
            | Some data \<Rightarrow>
              (let st1 = st\<lparr>console := console st @ [LogPushReceived data]\<rparr> in
               case js_get pubsubMessage ''messageId'' of
                 None \<Rightarrow> push_catch TypeError st1
               | Some mid \<Rightarrow>
               case js_get data ''title'' of
                 None \<Rightarrow> push_catch TypeError st1
               | Some title \<Rightarrow>
               case js_get data ''message'' of
                 None \<Rightarrow> push_catch TypeError st1
               | Some msg \<Rightarrow>
               case js_get data ''type'' of
                 None \<Rightarrow> push_catch TypeError st1
               | Some ty \<Rightarrow>
               case js_get pubsubMessage ''publishTime'' of
                 None \<Rightarrow> push_catch TypeError st1
               | Some pt \<Rightarrow>
                 (ReplyText 200 ''OK'',
                  snd (broadcastToClients
                         (notification mid (js_or title (JStr default_title)) msg
                            (js_or ty (JStr ''info'')) pt ''pubsub-push'')
                         st1))))"

section \<open>Connection lifecycle and the demo generator\<close>

text \<open>\<^verbatim>\<open>setTimeout(callback, delay)\<close>: one more pending one-shot timer.\<close>

definition set_timeout :: "env \<Rightarrow> nat \<Rightarrow> task \<Rightarrow> server \<Rightarrow> server" where
  "set_timeout e delay t st =
     st\<lparr>timers := timers st @ [\<lparr>due = date_now e + delay, task = t\<rparr>]\<rparr>"

text \<open>The \<^verbatim>\<open>forEach((sample, index) => setTimeout(..., 3000 + index * 5000))\<close> of the
  demo generator, from position \<open>index\<close> on.\<close>

fun schedule_samples :: "env \<Rightarrow> handle \<Rightarrow> sample list \<Rightarrow> nat \<Rightarrow> server \<Rightarrow> server" where
  "schedule_samples e clientRes [] index st = st"
| "schedule_samples e clientRes (s # ss) index st =
     schedule_samples e clientRes ss (index + 1)
       (set_timeout e (3000 + index * 5000) (DemoTask clientRes s index) st)"

definition sendDemoNotificationsToClient :: "env \<Rightarrow> handle \<Rightarrow> server \<Rightarrow> server" where
  "sendDemoNotificationsToClient e clientRes st =
     (if \<not> DEMO_MODE st then st else schedule_samples e clientRes DEMO_NOTIFICATIONS 0 st)"

text \<open>
  \<^verbatim>\<open>req.query.clientId || `client_${Date.now()}`\<close>. The query parameter is absent or a
  string (a repeated parameter, which the framework turns into an array, is left out).
\<close>

definition client_id :: "env \<Rightarrow> string option \<Rightarrow> string" where
  "client_id e q =
     (case q of
        None \<Rightarrow> ''client_'' @ decimal (date_now e)
      | Some s \<Rightarrow> if s \<noteq> [] then s else ''client_'' @ decimal (date_now e))"

definition connected_event :: "string \<Rightarrow> server \<Rightarrow> jv" where
  "connected_event clientId st =
     JObj [(''type'', JStr ''connected''), (''clientId'', JStr clientId),
           (''message'', JStr connected_message),
           (''pubsubEnabled'', JBool (subscription st)),
           (''demoMode'', JBool (DEMO_MODE st))]"

text \<open>
  What \<^verbatim>\<open>app.get('/events')\<close> does after the handshake write returned:
  \<^verbatim>\<open>clients.set\<close>, the log line and, in demo mode, the welcome timer and the script.
\<close>

definition register_client :: "env \<Rightarrow> string \<Rightarrow> handle \<Rightarrow> server \<Rightarrow> server" where
  "register_client e clientId res st =
     (let st1 = st\<lparr>clients := map_set clientId res (clients st),
                     journal := journal st @ [Registered clientId res]\<rparr>;
          st2 = st1\<lparr>console := console st1 @
                   [LogClientConnected clientId (map_size (clients st1))]\<rparr>
      in if DEMO_MODE st2 then
           sendDemoNotificationsToClient e res (set_timeout e 1000 (WelcomeTask res) st2)
         else st2)"

text \<open>
  \<^verbatim>\<open>app.get('/events')\<close>; \<open>q\<close> is \<^verbatim>\<open>req.query.clientId\<close> and \<open>res\<close> the response
  object of the request. The handshake write is not inside a \<^verbatim>\<open>try\<close>: when it
  throws, the handler stops there.
\<close>

definition get_events :: "env \<Rightarrow> string option \<Rightarrow> handle \<Rightarrow> server \<Rightarrow> response \<times> server" where
  "get_events e q res st =
     (let clientId = client_id e q in
      case sink_write (sinks st res) (SSE (connected_event clientId st)) of
        None \<Rightarrow> (Uncaught WriteError, st)
      | Some s' \<Rightarrow>
          (EventStream,
           register_client e clientId res
             (st\<lparr>sinks := (sinks st)(res := s'),
                 journal := journal st @ [Wrote res (SSE (connected_event clientId st))]\<rparr>)))"

text \<open>The same handler in \<^verbatim>\<open>src/server.js\<close>, which has no demo mode.\<close>

definition connected_event_plain :: "string \<Rightarrow> server \<Rightarrow> jv" where
  "connected_event_plain clientId st =
     JObj [(''type'', JStr ''connected''), (''clientId'', JStr clientId),
           (''message'', JStr connected_message),
           (''pubsubEnabled'', JBool (subscription st))]"

definition register_client_plain :: "string \<Rightarrow> handle \<Rightarrow> server \<Rightarrow> server" where
  "register_client_plain clientId res st =
     (let st1 = st\<lparr>clients := map_set clientId res (clients st),
                     journal := journal st @ [Registered clientId res]\<rparr>
      in st1\<lparr>console := console st1 @
               [LogClientConnected clientId (map_size (clients st1))]\<rparr>)"

definition get_events_plain ::
  "env \<Rightarrow> string option \<Rightarrow> handle \<Rightarrow> server \<Rightarrow> response \<times> server" where
  "get_events_plain e q res st =
     (let clientId = client_id e q in
      case sink_write (sinks st res) (SSE (connected_event_plain clientId st)) of
        None \<Rightarrow> (Uncaught WriteError, st)
      | Some s' \<Rightarrow>
          (EventStream,
           register_client_plain clientId res
             (st\<lparr>sinks := (sinks st)(res := s'),
                 journal :=
                   journal st @ [Wrote res (SSE (connected_event_plain clientId st))]\<rparr>)))"

text \<open>
  The listener \<^verbatim>\<open>req.on('close', ...)\<close> that \<^verbatim>\<open>/events\<close> installs for a connection
  registered as \<open>clientId\<close>.
\<close>

definition on_close :: "string \<Rightarrow> server \<Rightarrow> server" where
  "on_close clientId st =
     (let st1 = st\<lparr>clients := map_delete clientId (clients st)\<rparr>
      in st1\<lparr>console := console st1 @
               [LogClientDisconnected clientId (map_size (clients st1))]\<rparr>)"

text \<open>
  The connection of response object \<open>res\<close> goes away: the response is destroyed, and
  the listener installed for it, which holds \<open>clientId\<close>, runs.
\<close>

definition connection_closes :: "handle \<Rightarrow> string \<Rightarrow> server \<Rightarrow> server" where
  "connection_closes res clientId st =
     on_close clientId (st\<lparr>sinks := (sinks st)(res := (sinks st res)\<lparr>closed := True\<rparr>)\<rparr>)"

text \<open>The envelopes of the two timer callbacks, built when the timer fires.\<close>

definition welcomeNotification :: "env \<Rightarrow> jv" where
  "welcomeNotification e =
     notification (JStr (''demo_welcome_'' @ decimal (date_now e))) (JStr welcome_title)
       (JStr welcome_message) (JStr ''info'') (JStr (date_iso e)) ''demo''"

definition demo_id :: "env \<Rightarrow> nat \<Rightarrow> string" where
  "demo_id e index = ''demo_'' @ decimal (date_now e) @ ''_'' @ decimal index"

definition demo_notification :: "env \<Rightarrow> sample \<Rightarrow> nat \<Rightarrow> jv" where
  "demo_notification e s index =
     notification (JStr (demo_id e index)) (JStr (s_title s)) (JStr (s_message s))
       (JStr (s_type s)) (JStr (date_iso e)) ''demo''"

text \<open>\<^verbatim>\<open>try { res.write(...) } catch (e) {}\<close>: a write that throws changes nothing.\<close>

definition try_write :: "handle \<Rightarrow> frame \<Rightarrow> server \<Rightarrow> server" where
  "try_write h fr st =
     (case sink_write (sinks st h) fr of
        None \<Rightarrow> st
      | Some s' \<Rightarrow> st\<lparr>sinks := (sinks st)(h := s'), journal := journal st @ [Wrote h fr]\<rparr>)"

fun run_task :: "env \<Rightarrow> task \<Rightarrow> server \<Rightarrow> server" where
  "run_task e (WelcomeTask res) st = try_write res (SSE (welcomeNotification e)) st"
| "run_task e (DemoTask clientRes s index) st =
     try_write clientRes (SSE (demo_notification e s index)) st"

text \<open>
  The event loop runs the pending timer at position \<open>i\<close> once it is due, and drops it:
  a timer fires at most once. Nothing in the source cancels a timer.
\<close>

definition fire_timer :: "env \<Rightarrow> nat \<Rightarrow> server \<Rightarrow> server option" where
  "fire_timer e i st =
     (if i < length (timers st) \<and> due (timers st ! i) \<le> date_now e then
        Some (run_task e (task (timers st ! i))
                (st\<lparr>timers := take i (timers st) @ drop (Suc i) (timers st)\<rparr>))
      else None)"

section \<open>The event loop in demo mode\<close>

text \<open>
  What can happen to a server in demo mode, one event at a time: a due timer fires, a
  connection goes away (its response is destroyed and its close listener runs), a new
  \<^verbatim>\<open>/events\<close> request arrives, or a publish request arrives.
  There is no pull subscription in demo mode (\<^verbatim>\<open>initPubSub\<close> returns at once), so no
  pull message arrives.
\<close>

datatype event =
    Fire env nat
  | Close handle string
  | Open env "string option" handle
  | Notify env jv
  | Push jv

fun step :: "platform \<Rightarrow> event \<Rightarrow> server \<Rightarrow> server" where
  "step P (Fire e i) st = (case fire_timer e i st of None \<Rightarrow> st | Some st' \<Rightarrow> st')"
| "step P (Close res k) st = connection_closes res k st"
| "step P (Open e q res) st = snd (get_events e q res st)"
| "step P (Notify e body) st = snd (post_notify e body st)"
| "step P (Push body) st = snd (post_pubsub_push P body st)"

definition run :: "platform \<Rightarrow> event list \<Rightarrow> server \<Rightarrow> server" where
  "run P evs st = fold (step P) evs st"

text \<open>The response object a request opens, if any.\<close>

fun opens :: "event \<Rightarrow> handle option" where
  "opens (Open e q res) = Some res"
| "opens ev = None"

text \<open>
  Bookkeeping for the script of one connection. A script timer of response object \<open>h\<close>
  is a pending \<^verbatim>\<open>setTimeout\<close> callback of \<^verbatim>\<open>sendDemoNotificationsToClient\<close> for
  \<open>h\<close>. A script envelope is recognised by its id, \<^verbatim>\<open>demo_\<close> followed by a digit
  (the welcome envelope has \<^verbatim>\<open>demo_welcome_\<close>, the handshake has no id).
\<close>

fun is_script_task :: "handle \<Rightarrow> task \<Rightarrow> bool" where
  "is_script_task h (DemoTask h' s i) = (h' = h)"
| "is_script_task h (WelcomeTask h') = False"

definition envelope_id :: "jv \<Rightarrow> jv" where
  "envelope_id n =
     (case js_get n ''data'' of
        None \<Rightarrow> JUndefined
      | Some d \<Rightarrow> (case js_get d ''id'' of None \<Rightarrow> JUndefined | Some i \<Rightarrow> i))"

fun is_script_frame :: "frame \<Rightarrow> bool" where
  "is_script_frame (SSE n) =
     (case envelope_id n of
        JStr s \<Rightarrow> take 5 s = ''demo_'' \<and> 5 < length s \<and> s ! 5 \<in> set ''0123456789''
      | _ \<Rightarrow> False)"

text \<open>The id of the envelope a frame carries, \<^verbatim>\<open>data.id\<close>.\<close>

fun frame_id :: "frame \<Rightarrow> jv" where
  "frame_id (SSE n) = envelope_id n"

text \<open>
  The script envelopes that reached the client of response object \<open>h\<close>, oldest first,
  and the script timers of \<open>h\<close> that are still pending.
\<close>

definition script_received :: "server \<Rightarrow> handle \<Rightarrow> frame list" where
  "script_received st h = filter is_script_frame (received (sinks st h))"

definition pending_tasks :: "server \<Rightarrow> handle \<Rightarrow> task list" where
  "pending_tasks st h = filter (is_script_task h) (map task (timers st))"

text \<open>
  The script position of a timer callback, and the last character of the id of a
  frame: in \<^verbatim>\<open>demo_${Date.now()}_${index}\<close> that is the position, as long as the script
  has fewer than ten entries.
\<close>

fun script_index :: "task \<Rightarrow> nat" where
  "script_index (DemoTask h s i) = i"
| "script_index (WelcomeTask h) = 0"

definition frame_mark :: "frame \<Rightarrow> char" where
  "frame_mark fr = (case frame_id fr of JStr s \<Rightarrow> last s | _ \<Rightarrow> CHR ''?'')"

text \<open>
  What holds of the connection on response object \<open>x\<close> from its opening on, along every
  run: each pending script timer is the callback of one script entry; each script
  envelope received is the envelope of one script entry; no position occurs twice among
  the envelopes received and the timers pending; together they are at most as many as
  the script has entries, and exactly as many while the connection is open.
\<close>

definition script_inv :: "handle \<Rightarrow> server \<Rightarrow> bool" where
  "script_inv x st \<longleftrightarrow>
     DEMO_MODE st \<and> \<not> failing (sinks st x)
   \<and> (\<forall>t\<in>set (pending_tasks st x).
         \<exists>i<length DEMO_NOTIFICATIONS. t = DemoTask x (DEMO_NOTIFICATIONS ! i) i)
   \<and> (\<forall>fr\<in>set (script_received st x).
         \<exists>e i. i < length DEMO_NOTIFICATIONS
               \<and> fr = SSE (demo_notification e (DEMO_NOTIFICATIONS ! i) i))
   \<and> distinct (map frame_mark (script_received st x) @
               map (\<lambda>t. digit (script_index t)) (pending_tasks st x))
   \<and> length (script_received st x) + length (pending_tasks st x)
       \<le> length DEMO_NOTIFICATIONS
   \<and> (\<not> closed (sinks st x) \<longrightarrow>
        length (script_received st x) + length (pending_tasks st x)
          = length DEMO_NOTIFICATIONS)"

section \<open>The fan-out over a snapshot\<close>

text \<open>
  The registry operation \<^verbatim>\<open>snapshot()\<close> of the specification: the registered
  connections at one instant, as a list of its own.
\<close>

definition snapshot :: "server \<Rightarrow> (string \<times> handle) list" where
  "snapshot st = entries (clients st)"

text \<open>
  The fan-out as the specification words it: for each entry of a list taken beforehand,
  attempt the write; on failure remove that connection and go on with the next entry.
  The step on one entry is the callback of the source, \<open>deliver\<close>.
\<close>

definition fanout :: "frame \<Rightarrow> (string \<times> handle) list \<Rightarrow> server \<times> nat \<Rightarrow> server \<times> nat" where
  "fanout fr es p = fold (\<lambda>(clientId, client). deliver fr clientId client) es p"

section \<open>Sample states\<close>

text \<open>Three registered connections; the sink of \<open>b\<close> throws on every write.\<close>

definition st_abc :: server where
  "st_abc =
     \<lparr>DEMO_MODE = False, topic = False, subscription = False,
      clients = [Some (''a'', 0), Some (''b'', 1), Some (''c'', 2)],
      sinks = (\<lambda>h. \<lparr>failing = (h = 1), closed = False, frames = [], received = []\<rparr>),
      timers = [], console = [], published = [], acked = [], journal = []\<rparr>"

definition note0 :: jv where
  "note0 = notification (JNum 7) (JStr ''T'') (JStr ''M'') (JStr ''info'') (JStr ''now'') ''direct''"

text \<open>
  A platform that agrees with \<^verbatim>\<open>JSON.parse\<close> and the base64 decoder on the texts
  the examples use: \<^verbatim>\<open>{}\<close>, \<^verbatim>\<open>null\<close>, the malformed \<^verbatim>\<open>{\<close>, and \<^verbatim>\<open>e30=\<close>,
  which is \<^verbatim>\<open>{}\<close> in base64.
\<close>

definition toy_platform :: platform where
  "toy_platform =
     \<lparr>JSON_parse = (\<lambda>s. if s = ''{}'' then Some (JObj [])
                         else if s = ''null'' then Some JNull
                         else None),
      base64_text = (\<lambda>d. if d = JStr ''e30='' then Some ''{}'' else None)\<rparr>"

definition msg_empty :: pubsub_message where
  "msg_empty = \<lparr>msg_id = ''m1'', msg_data = ''{}'', msg_publishTime = ''2024-01-01T00:00:00.000Z''\<rparr>"

definition msg_null :: pubsub_message where
  "msg_null = \<lparr>msg_id = ''m2'', msg_data = ''null'', msg_publishTime = ''2024-01-01T00:00:00.000Z''\<rparr>"

definition msg_bad :: pubsub_message where
  "msg_bad = \<lparr>msg_id = ''m3'', msg_data = ''{'', msg_publishTime = ''2024-01-01T00:00:00.000Z''\<rparr>"

definition push_empty :: jv where
  "push_empty =
     JObj [(''message'',
            JObj [(''data'', JStr ''e30=''), (''messageId'', JStr ''m4''),
                  (''publishTime'', JStr ''2024-01-01T00:00:00.000Z'')])]"

text \<open>
  One registered connection with an accepting sink; the topic and its subscription
  are set up.
\<close>

definition st_one :: server where
  "st_one =
     \<lparr>DEMO_MODE = False, topic = True, subscription = True,
      clients = [Some (''a'', 0)],
      sinks = (\<lambda>h. \<lparr>failing = False, closed = False, frames = [], received = []\<rparr>),
      timers = [], console = [], published = [], acked = [], journal = []\<rparr>"

text \<open>A server in demo mode with no connection yet; every sink accepts writes.\<close>

definition st_demo :: server where
  "st_demo =
     \<lparr>DEMO_MODE = True, topic = False, subscription = False,
      clients = [],
      sinks = (\<lambda>h. \<lparr>failing = False, closed = False, frames = [], received = []\<rparr>),
      timers = [], console = [], published = [], acked = [], journal = []\<rparr>"

definition env0 :: env where
  "env0 = \<lparr>date_now = 0, date_iso = ''1970-01-01T00:00:00.000Z'', publish_result = Some ''p1''\<rparr>"

text \<open>
  A connection \<open>a\<close> opened in demo mode at time 0, then closed; and the clock one
  second and three seconds after the opening, when the welcome timer and the first
  script timer are due.
\<close>

definition demo_opened :: server where
  "demo_opened = snd (get_events env0 (Some ''a'') 0 st_demo)"

definition demo_closed :: server where
  "demo_closed = connection_closes 0 ''a'' demo_opened"

definition env1 :: env where
  "env1 = \<lparr>date_now = 1000, date_iso = ''1970-01-01T00:00:01.000Z'', publish_result = None\<rparr>"

definition env3 :: env where
  "env3 = \<lparr>date_now = 3000, date_iso = ''1970-01-01T00:00:03.000Z'', publish_result = None\<rparr>"

text \<open>The clock when the second, third and fourth script timers are due.\<close>

definition env8 :: env where
  "env8 = \<lparr>date_now = 8000, date_iso = ''1970-01-01T00:00:08.000Z'', publish_result = None\<rparr>"

definition env13 :: env where
  "env13 = \<lparr>date_now = 13000, date_iso = ''1970-01-01T00:00:13.000Z'', publish_result = None\<rparr>"

definition env18 :: env where
  "env18 = \<lparr>date_now = 18000, date_iso = ''1970-01-01T00:00:18.000Z'', publish_result = None\<rparr>"

text \<open>
  One registered connection, and two response objects of requests still to come: the
  sink of 1 accepts writes, the sink of 2 throws.
\<close>

definition st_two :: server where
  "st_two =
     \<lparr>DEMO_MODE = False, topic = True, subscription = True,
      clients = [Some (''a'', 0)],
      sinks = (\<lambda>h. \<lparr>failing = (h = 2), closed = False, frames = [], received = []\<rparr>),
      timers = [], console = [], published = [], acked = [], journal = []\<rparr>"

section \<open>The live iteration visits the snapshot\<close>

lemma entries_nth_mem: "i < length m \<Longrightarrow> m ! i = Some e \<Longrightarrow> e \<in> set (entries m)"
proof (induction m arbitrary: i)
  case Nil then show ?case by simp
next
  case (Cons s m)
  then show ?case by (cases i; cases s) auto
qed

lemma map_delete_nth:
  "i < length m \<Longrightarrow> m ! i = Some (k, h) \<Longrightarrow> distinct (map_keys m) \<Longrightarrow> map_delete k m = m[i := None]"
proof (induction m arbitrary: i)
  case Nil then show ?case by simp
next
  case (Cons s m)
  show ?case
  proof (cases i)
    case 0
    with Cons.prems show ?thesis by simp
  next
    case (Suc j)
    with Cons.prems have j: "j < length m" "m ! j = Some (k, h)" by auto
    then have mem: "(k, h) \<in> set (entries m)" by (rule entries_nth_mem)
    show ?thesis
    proof (cases s)
      case None
      with Cons.prems Cons.IH [OF j] Suc show ?thesis by (simp add: map_keys_def)
    next
      case (Some e)
      obtain k' v where e: "e = (k', v)" by (cases e)
      from Cons.prems Some e mem have "k' \<noteq> k" by (force simp: map_keys_def)
      with Cons.prems Cons.IH [OF j] Suc Some e show ?thesis by (simp add: map_keys_def)
    qed
  qed
qed

lemma entries_map_delete:
  "distinct (map_keys m) \<Longrightarrow> entries (map_delete k m) = filter (\<lambda>e. fst e \<noteq> k) (entries m)"
proof (induction k m rule: map_delete.induct)
  case (3 k k' v m)
  show ?case
  proof (cases "k' = k")
    case True
    with 3 have "k \<notin> fst ` set (entries m)" by (simp add: map_keys_def)
    then have "filter (\<lambda>e. fst e \<noteq> k) (entries m) = entries m"
      by (auto simp: filter_id_conv)
    with True show ?thesis by simp
  next
    case False
    with 3 show ?thesis by (simp add: map_keys_def)
  qed
qed (simp_all add: map_keys_def)

lemma wf_map_delete: "wf_map m \<Longrightarrow> wf_map (map_delete k m)"
  by (simp add: wf_map_def map_keys_def entries_map_delete distinct_map_filter)

lemma entries_drop_None: "i < length m \<Longrightarrow> m ! i = None \<Longrightarrow> entries (drop i m) = entries (drop (Suc i) m)"
  by (simp flip: Cons_nth_drop_Suc)

lemma entries_drop_Some: "i < length m \<Longrightarrow> m ! i = Some e \<Longrightarrow> entries (drop i m) = e # entries (drop (Suc i) m)"
  by (simp flip: Cons_nth_drop_Suc)

lemma clients_deliver:
  "clients (fst (deliver fr k h p)) =
     (if failing (sinks (fst p) h) then map_delete k (clients (fst p)) else clients (fst p))"
  by (simp add: deliver_def sink_write_def)

lemma forEach_from_fanout:
  "wf_map (clients (fst p)) \<Longrightarrow>
   forEach_from fr i p = fanout fr (entries (drop i (clients (fst p)))) p"
proof (induction fr i p rule: forEach_from.induct)
  case (1 fr index p)
  let ?m = "clients (fst p)"
  show ?case
  proof (cases "index < length ?m")
    case False
    then show ?thesis by (simp add: forEach_from.simps [of fr index p] fanout_def)
  next
    case True
    show ?thesis
    proof (cases "?m ! index")
      case None
      with True "1.IH"(1) "1.prems" show ?thesis
        by (simp add: forEach_from.simps [of fr index p] entries_drop_None)
    next
      case (Some e)
      obtain k h where e: "e = (k, h)" by (cases e)
      let ?p' = "deliver fr k h p"
      have wf': "wf_map (clients (fst ?p'))"
        using "1.prems" by (simp add: clients_deliver wf_map_delete)
      have "drop (Suc index) (clients (fst ?p')) = drop (Suc index) ?m"
        using True Some e "1.prems"
        by (simp add: clients_deliver map_delete_nth wf_map_def)
      with "1.IH"(2) [OF True Some e [symmetric] wf'] True Some e show ?thesis
        by (simp add: forEach_from.simps [of fr index p] entries_drop_Some fanout_def)
    qed
  qed
qed

section \<open>What the fan-out does to the state\<close>

lemma fanout_Nil [simp]: "fanout fr [] p = p"
  by (simp add: fanout_def)

lemma fanout_Cons [simp]: "fanout fr (e # es) p = fanout fr es (deliver fr (fst e) (snd e) p)"
  by (simp add: fanout_def split_beta)

lemma failing_deliver [simp]:
  "failing (sinks (fst (deliver fr k h p)) x) = failing (sinks (fst p) x)"
  by (simp add: deliver_def sink_write_def)

lemma failing_fanout [simp]:
  "failing (sinks (fst (fanout fr es p)) x) = failing (sinks (fst p) x)"
  by (induction es arbitrary: p) simp_all

lemma snd_deliver:
  "snd (deliver fr k h p) = (if failing (sinks (fst p) h) then snd p else snd p + 1)"
  by (simp add: deliver_def sink_write_def)

lemma snd_fanout:
  "snd (fanout fr es p) =
     snd p + length (filter (\<lambda>e. \<not> failing (sinks (fst p) (snd e))) es)"
  by (induction es arbitrary: p) (simp_all add: snd_deliver)

lemma console_deliver:
  "console (fst (deliver fr k h p)) =
     (if failing (sinks (fst p) h) then console (fst p) @ [LogSendError k] else console (fst p))"
  by (simp add: deliver_def sink_write_def)

lemma console_fanout:
  "console (fst (fanout fr es p)) =
     console (fst p) @
     map (\<lambda>e. LogSendError (fst e)) (filter (\<lambda>e. failing (sinks (fst p) (snd e))) es)"
  by (induction es arbitrary: p) (simp_all add: console_deliver)

lemma clients_fanout:
  "clients (fst (fanout fr es p)) =
     fold map_delete (map fst (filter (\<lambda>e. failing (sinks (fst p) (snd e))) es)) (clients (fst p))"
  by (induction es arbitrary: p) (simp_all add: clients_deliver)

lemma entries_fold_map_delete:
  "wf_map m \<Longrightarrow> entries (fold map_delete ks m) = filter (\<lambda>e. fst e \<notin> set ks) (entries m)"
proof (induction ks arbitrary: m)
  case Nil then show ?case by simp
next
  case (Cons k ks)
  from Cons.prems have "wf_map (map_delete k m)" by (rule wf_map_delete)
  from Cons.IH [OF this] Cons.prems show ?case
    by (simp add: wf_map_def entries_map_delete conj_commute)
qed

lemma frames_deliver:
  "frames (sinks (fst (deliver fr k h p)) x) =
     (if x = h \<and> \<not> failing (sinks (fst p) h) then frames (sinks (fst p) x) @ [fr]
      else frames (sinks (fst p) x))"
  by (simp add: deliver_def sink_write_def)

lemma frames_fanout:
  "frames (sinks (fst (fanout fr es p)) x) =
     frames (sinks (fst p) x) @
     replicate (length (filter (\<lambda>e. snd e = x \<and> \<not> failing (sinks (fst p) x)) es)) fr"
  by (induction es arbitrary: p) (simp_all add: frames_deliver replicate_append_same)

lemma rest_deliver:
  "DEMO_MODE (fst (deliver fr k h p)) = DEMO_MODE (fst p)"
  "topic (fst (deliver fr k h p)) = topic (fst p)"
  "subscription (fst (deliver fr k h p)) = subscription (fst p)"
  "timers (fst (deliver fr k h p)) = timers (fst p)"
  "published (fst (deliver fr k h p)) = published (fst p)"
  "acked (fst (deliver fr k h p)) = acked (fst p)"
  by (simp_all add: deliver_def split: option.splits)

lemma rest_fanout:
  "DEMO_MODE (fst (fanout fr es p)) = DEMO_MODE (fst p)"
  "topic (fst (fanout fr es p)) = topic (fst p)"
  "subscription (fst (fanout fr es p)) = subscription (fst p)"
  "timers (fst (fanout fr es p)) = timers (fst p)"
  "published (fst (fanout fr es p)) = published (fst p)"
  "acked (fst (fanout fr es p)) = acked (fst p)"
  by (induction es arbitrary: p) (simp_all add: rest_deliver)

lemma entries_after_fanout:
  assumes "wf_map (clients st)"
  shows "entries (clients (fst (fanout fr (entries (clients st)) (st, n)))) =
         filter (\<lambda>e. \<not> failing (sinks st (snd e))) (entries (clients st))"
proof -
  let ?es = "entries (clients st)"
  let ?bad = "\<lambda>e. failing (sinks st (snd e))"
  have d: "distinct (map fst ?es)" using assms by (simp add: wf_map_def map_keys_def)
  have "\<And>e. e \<in> set ?es \<Longrightarrow> (fst e \<notin> fst ` {x \<in> set ?es. ?bad x}) = (\<not> ?bad e)"
  proof -
    fix e assume e: "e \<in> set ?es"
    { fix x assume x: "x \<in> set ?es" "fst x = fst e"
      with e d have "x = e" by (metis eq_key_imp_eq_value prod.collapse) }
    with e show "(fst e \<notin> fst ` {x \<in> set ?es. ?bad x}) = (\<not> ?bad e)" by auto
  qed
  then have "filter (\<lambda>e. fst e \<notin> fst ` {x \<in> set ?es. ?bad x}) ?es = filter (\<lambda>e. \<not> ?bad e) ?es"
    by (intro filter_cong) auto
  with assms show ?thesis
    by (simp add: clients_fanout entries_fold_map_delete)
qed

section \<open>Broadcast in closed form\<close>

lemma broadcast_eq:
  assumes "wf_map (clients st)"
  shows "broadcastToClients note st =
           (JUndefined,
            (fst (fanout (SSE note) (snapshot st) (st, 0)))
              \<lparr>console := console st @
                 map (\<lambda>e. LogSendError (fst e))
                   (filter (\<lambda>e. failing (sinks st (snd e))) (snapshot st)) @
                 [LogDelivered
                    (length (filter (\<lambda>e. \<not> failing (sinks st (snd e))) (snapshot st)))]\<rparr>)"
  using assms
  by (simp add: broadcastToClients_def forEach_from_fanout snapshot_def split_beta
        console_fanout snd_fanout)

lemma broadcast_entries:
  "wf_map (clients st) \<Longrightarrow>
   entries (clients (snd (broadcastToClients note st))) =
     filter (\<lambda>e. \<not> failing (sinks st (snd e))) (snapshot st)"
  by (simp add: broadcast_eq snapshot_def entries_after_fanout)

lemma broadcast_frames:
  "wf_map (clients st) \<Longrightarrow>
   frames (sinks (snd (broadcastToClients note st)) x) =
     frames (sinks st x) @
     replicate (length (filter (\<lambda>e. snd e = x \<and> \<not> failing (sinks st x)) (snapshot st)))
       (SSE note)"
  by (simp add: broadcast_eq frames_fanout)

lemma broadcast_console:
  "wf_map (clients st) \<Longrightarrow>
   console (snd (broadcastToClients note st)) =
     console st @
     map (\<lambda>e. LogSendError (fst e)) (filter (\<lambda>e. failing (sinks st (snd e))) (snapshot st)) @
     [LogDelivered (length (filter (\<lambda>e. \<not> failing (sinks st (snd e))) (snapshot st)))]"
  by (simp add: broadcast_eq)

lemma broadcast_failing:
  "wf_map (clients st) \<Longrightarrow>
   failing (sinks (snd (broadcastToClients note st)) x) = failing (sinks st x)"
  by (simp add: broadcast_eq)

lemma broadcast_rest:
  assumes "wf_map (clients st)"
  shows "DEMO_MODE (snd (broadcastToClients note st)) = DEMO_MODE st"
    and "topic (snd (broadcastToClients note st)) = topic st"
    and "subscription (snd (broadcastToClients note st)) = subscription st"
    and "timers (snd (broadcastToClients note st)) = timers st"
    and "published (snd (broadcastToClients note st)) = published st"
    and "acked (snd (broadcastToClients note st)) = acked st"
  using assms by (simp_all add: broadcast_eq rest_fanout)

text \<open>The loop of the source, run on the sample state.\<close>

lemma st_abc_eval:
  "snd (forEach_from (SSE note0) 0 (st_abc, 0)) = 2"
  "map_keys (clients (fst (forEach_from (SSE note0) 0 (st_abc, 0)))) = [''a'', ''c'']"
  by (simp_all add: st_abc_def forEach_from.simps deliver_def sink_write_def map_keys_def)

text \<open>Acknowledgements are untouched by a broadcast, whatever the registry holds.\<close>

lemma acked_forEach_from: "acked (fst (forEach_from fr i p)) = acked (fst p)"
proof (induction fr i p rule: forEach_from.induct)
  case (1 fr index p)
  then show ?case
    by (simp add: forEach_from.simps [of fr index p] rest_deliver split: option.splits)
qed

lemma acked_broadcast: "acked (snd (broadcastToClients note st)) = acked st"
  by (simp add: broadcastToClients_def split_beta acked_forEach_from)

section \<open>Registration, timers and identifiers\<close>

lemma js_get_nullish: "js_get v k = None \<longleftrightarrow> v = JNull \<or> v = JUndefined"
  by (cases v) auto

lemma map_keys_map_set:
  "map_keys (map_set k v m) = (if k \<in> set (map_keys m) then map_keys m else map_keys m @ [k])"
  by (induction k v m rule: map_set.induct) (auto simp: map_keys_def)

lemma wf_map_set: "wf_map m \<Longrightarrow> wf_map (map_set k v m)"
  by (simp add: wf_map_def map_keys_map_set)

lemma entries_map_set_mem: "(k, v) \<in> set (entries (map_set k v m))"
  by (induction k v m rule: map_set.induct) auto

lemma set_timeout_fields:
  "clients (set_timeout e d t st) = clients st"
  "sinks (set_timeout e d t st) = sinks st"
  "console (set_timeout e d t st) = console st"
  "DEMO_MODE (set_timeout e d t st) = DEMO_MODE st"
  "timers (set_timeout e d t st) = timers st @ [\<lparr>due = date_now e + d, task = t\<rparr>]"
  by (simp_all add: set_timeout_def)

lemma schedule_samples_fields:
  "clients (schedule_samples e h ss i st) = clients st"
  "sinks (schedule_samples e h ss i st) = sinks st"
  "console (schedule_samples e h ss i st) = console st"
  by (induction ss arbitrary: i st) (simp_all add: set_timeout_fields)

lemma timers_schedule_samples:
  "timers (schedule_samples e h ss i st) =
     timers st @
     map (\<lambda>(j, s). \<lparr>due = date_now e + (3000 + j * 5000), task = DemoTask h s j\<rparr>)
       (enumerate i ss)"
  by (induction ss arbitrary: i st) (simp_all add: set_timeout_fields)

lemma register_client_fields:
  "clients (register_client e k h st) = map_set k h (clients st)"
  "sinks (register_client e k h st) = sinks st"
  by (simp_all add: register_client_def Let_def sendDemoNotificationsToClient_def
      schedule_samples_fields set_timeout_fields)

lemma timers_register_client:
  "DEMO_MODE st \<Longrightarrow>
   timers (register_client e k h st) =
     timers st @
     \<lparr>due = date_now e + 1000, task = WelcomeTask h\<rparr> #
     map (\<lambda>(j, s). \<lparr>due = date_now e + (3000 + j * 5000), task = DemoTask h s j\<rparr>)
       (enumerate 0 DEMO_NOTIFICATIONS)"
  by (simp add: register_client_def Let_def sendDemoNotificationsToClient_def
      timers_schedule_samples set_timeout_fields)

lemma get_events_failing:
  "failing (sinks st res) \<Longrightarrow> get_events e q res st = (Uncaught WriteError, st)"
  by (simp add: get_events_def sink_write_def Let_def)

lemma get_events_accepting:
  "\<not> failing (sinks st res) \<Longrightarrow>
   get_events e q res st =
     (EventStream,
      register_client e (client_id e q) res
        (st\<lparr>sinks := (sinks st)(res := (sinks st res)
               \<lparr>frames := frames (sinks st res) @ [SSE (connected_event (client_id e q) st)],
                received :=
                  (if closed (sinks st res) then received (sinks st res)
                   else received (sinks st res) @
                        [SSE (connected_event (client_id e q) st)])\<rparr>),
            journal := journal st @ [Wrote res (SSE (connected_event (client_id e q) st))]\<rparr>))"
  by (simp add: get_events_def sink_write_def Let_def)

lemma try_write_failing: "failing (sinks st h) \<Longrightarrow> try_write h fr st = st"
  by (simp add: try_write_def sink_write_def)

lemma try_write_accepting:
  "\<not> failing (sinks st h) \<Longrightarrow>
   try_write h fr st =
     st\<lparr>sinks := (sinks st)(h := (sinks st h)
            \<lparr>frames := frames (sinks st h) @ [fr],
             received :=
               (if closed (sinks st h) then received (sinks st h)
                else received (sinks st h) @ [fr])\<rparr>),
        journal := journal st @ [Wrote h fr]\<rparr>"
  by (simp add: try_write_def sink_write_def)

lemma digit_distinct: "i < 4 \<Longrightarrow> j < 4 \<Longrightarrow> i \<noteq> j \<Longrightarrow> digit i \<noteq> digit j"
proof -
  assume "i < 4" "j < 4" "i \<noteq> j"
  then have "(i = 0 \<or> i = 1 \<or> i = 2 \<or> i = 3) \<and> (j = 0 \<or> j = 1 \<or> j = 2 \<or> j = 3) \<and> i \<noteq> j"
    by arith
  then show ?thesis by (auto simp: digit_def)
qed

lemma last_demo_id: "i < 10 \<Longrightarrow> last (demo_id e i) = digit i"
  by (simp add: demo_id_def)

lemma demo_id_distinct:
  "i < 4 \<Longrightarrow> j < 4 \<Longrightarrow> i \<noteq> j \<Longrightarrow> demo_id e1 i \<noteq> demo_id e2 j"
proof
  assume a: "i < 4" "j < 4" "i \<noteq> j" and eq: "demo_id e1 i = demo_id e2 j"
  from eq have "last (demo_id e1 i) = last (demo_id e2 j)" by simp
  with a have "digit i = digit j" by (simp add: last_demo_id)
  with a digit_distinct show False by blast
qed

lemma length_DEMO_NOTIFICATIONS: "length DEMO_NOTIFICATIONS = 4"
  by (simp add: DEMO_NOTIFICATIONS_def)

text \<open>The handlers keep the keys of the registry unique.\<close>

lemma wf_map_empty: "wf_map []"
  by (simp add: wf_map_def map_keys_def)

lemma wf_map_get_events: "wf_map (clients st) \<Longrightarrow> wf_map (clients (snd (get_events e q res st)))"
  by (simp add: get_events_def Let_def register_client_fields wf_map_set split: option.splits)

lemma wf_map_on_close: "wf_map (clients st) \<Longrightarrow> wf_map (clients (on_close k st))"
  by (simp add: on_close_def Let_def wf_map_delete)

lemma wf_map_broadcast:
  "wf_map (clients st) \<Longrightarrow> wf_map (clients (snd (broadcastToClients note st)))"
  by (simp add: wf_map_def map_keys_def broadcast_entries distinct_map_filter snapshot_def)

section \<open>The journal of a broadcast\<close>

lemma journal_deliver:
  "journal (fst (deliver fr k h p)) =
     (if failing (sinks (fst p) h) then journal (fst p) else journal (fst p) @ [Wrote h fr])"
  by (simp add: deliver_def sink_write_def)

lemma journal_fanout:
  "journal (fst (fanout fr es p)) =
     journal (fst p) @
     map (\<lambda>e. Wrote (snd e) fr) (filter (\<lambda>e. \<not> failing (sinks (fst p) (snd e))) es)"
  by (induction es arbitrary: p) (simp_all add: journal_deliver)

lemma broadcast_journal:
  "wf_map (clients st) \<Longrightarrow>
   journal (snd (broadcastToClients note st)) =
     journal st @
     map (\<lambda>e. Wrote (snd e) (SSE note))
       (filter (\<lambda>e. \<not> failing (sinks st (snd e))) (snapshot st))"
  by (simp add: broadcast_eq journal_fanout)

section \<open>The handshake of \<^verbatim>\<open>/events\<close>\<close>

lemma register_client_plain_fields:
  "clients (register_client_plain k h st) = map_set k h (clients st)"
  "sinks (register_client_plain k h st) = sinks st"
  "journal (register_client_plain k h st) = journal st @ [Registered k h]"
  "timers (register_client_plain k h st) = timers st"
  "console (register_client_plain k h st) =
     console st @ [LogClientConnected k (map_size (map_set k h (clients st)))]"
  by (simp_all add: register_client_plain_def Let_def)

lemma register_client_more_fields:
  "journal (register_client e k h st) = journal st @ [Registered k h]"
  "console (register_client e k h st) =
     console st @ [LogClientConnected k (map_size (map_set k h (clients st)))]"
proof -
  have s: "journal (schedule_samples e h ss i st') = journal st'
      \<and> console (schedule_samples e h ss i st') = console st'" for ss i st'
    by (induction ss arbitrary: i st') (simp_all add: set_timeout_def)
  show "journal (register_client e k h st) = journal st @ [Registered k h]"
    "console (register_client e k h st) =
     console st @ [LogClientConnected k (map_size (map_set k h (clients st)))]"
    by (simp_all add: register_client_def Let_def sendDemoNotificationsToClient_def s
        set_timeout_def)
qed

lemma get_events_plain_failing:
  "failing (sinks st res) \<Longrightarrow> get_events_plain e q res st = (Uncaught WriteError, st)"
  by (simp add: get_events_plain_def sink_write_def Let_def)

lemma get_events_plain_accepting:
  "\<not> failing (sinks st res) \<Longrightarrow>
   get_events_plain e q res st =
     (EventStream,
      register_client_plain (client_id e q) res
        (st\<lparr>sinks := (sinks st)(res := (sinks st res)
               \<lparr>frames := frames (sinks st res) @
                   [SSE (connected_event_plain (client_id e q) st)],
                received :=
                  (if closed (sinks st res) then received (sinks st res)
                   else received (sinks st res) @
                        [SSE (connected_event_plain (client_id e q) st)])\<rparr>),
            journal :=
              journal st @ [Wrote res (SSE (connected_event_plain (client_id e q) st))]\<rparr>))"
  by (simp add: get_events_plain_def sink_write_def Let_def)

section \<open>The script of one connection along a run\<close>

lemma digit_mem: "digit n \<in> set ''0123456789''"
proof -
  have "n mod 10 < length ''0123456789''" by simp
  then show ?thesis unfolding digit_def by (rule nth_mem)
qed

lemma decimal_hd: "decimal n \<noteq> [] \<and> hd (decimal n) \<in> set ''0123456789''"
proof (induction n rule: decimal.induct)
  case (1 n)
  show ?case
  proof (cases "n < 10")
    case True
    then show ?thesis using digit_mem [of n] by simp
  next
    case False
    with 1 show ?thesis by (simp add: decimal.simps [of n])
  qed
qed

lemma welcome_not_script: "\<not> is_script_frame (SSE (welcomeNotification e))"
  by (simp add: welcomeNotification_def notification_def envelope_id_def)

lemma connected_not_script: "\<not> is_script_frame (SSE (connected_event k st))"
  by (simp add: connected_event_def envelope_id_def)

lemma demo_is_script: "is_script_frame (SSE (demo_notification e s i))"
proof -
  obtain c cs where d: "decimal (date_now e) = c # cs" "c \<in> set ''0123456789''"
    using decimal_hd [of "date_now e"] by (cases "decimal (date_now e)") auto
  then show ?thesis
    by (simp add: demo_notification_def notification_def envelope_id_def demo_id_def)
qed

declare is_script_frame.simps [simp del]

lemma envelope_id_demo: "envelope_id (demo_notification e s i) = JStr (demo_id e i)"
  by (simp add: demo_notification_def notification_def envelope_id_def)

lemma frame_mark_demo: "i < 10 \<Longrightarrow> frame_mark (SSE (demo_notification e s i)) = digit i"
  by (simp add: frame_mark_def envelope_id_demo last_demo_id)

lemma pending_tasks_remove:
  assumes "i < length (timers st)"
  shows "pending_tasks st x =
           filter (is_script_task x) (map task (take i (timers st))) @
           (if is_script_task x (task (timers st ! i)) then [task (timers st ! i)] else []) @
           filter (is_script_task x) (map task (drop (Suc i) (timers st)))"
    and "pending_tasks (st\<lparr>timers := take i (timers st) @ drop (Suc i) (timers st)\<rparr>) x =
           filter (is_script_task x) (map task (take i (timers st))) @
           filter (is_script_task x) (map task (drop (Suc i) (timers st)))"
proof -
  from assms have "timers st = take i (timers st) @ timers st ! i # drop (Suc i) (timers st)"
    by (rule id_take_nth_drop)
  then have "map task (timers st) =
      map task (take i (timers st)) @ task (timers st ! i) # map task (drop (Suc i) (timers st))"
    by (metis list.simps(9) map_append)
  then show "pending_tasks st x =
           filter (is_script_task x) (map task (take i (timers st))) @
           (if is_script_task x (task (timers st ! i)) then [task (timers st ! i)] else []) @
           filter (is_script_task x) (map task (drop (Suc i) (timers st)))"
    by (simp add: pending_tasks_def)
  show "pending_tasks (st\<lparr>timers := take i (timers st) @ drop (Suc i) (timers st)\<rparr>) x =
           filter (is_script_task x) (map task (take i (timers st))) @
           filter (is_script_task x) (map task (drop (Suc i) (timers st)))"
    by (simp add: pending_tasks_def)
qed

lemma try_write_fields:
  "timers (try_write h fr st) = timers st"
  "clients (try_write h fr st) = clients st"
  "console (try_write h fr st) = console st"
  "DEMO_MODE (try_write h fr st) = DEMO_MODE st"
  "failing (sinks (try_write h fr st) x) = failing (sinks st x)"
  "closed (sinks (try_write h fr st) x) = closed (sinks st x)"
  by (simp_all add: try_write_def sink_write_def split: option.splits)

lemma received_try_write:
  "received (sinks (try_write h fr st) x) =
     (if h = x \<and> \<not> failing (sinks st x) \<and> \<not> closed (sinks st x)
      then received (sinks st x) @ [fr] else received (sinks st x))"
  by (simp add: try_write_def sink_write_def)

lemma run_task_fields:
  "timers (run_task e t st) = timers st"
  "clients (run_task e t st) = clients st"
  "console (run_task e t st) = console st"
  "DEMO_MODE (run_task e t st) = DEMO_MODE st"
  "failing (sinks (run_task e t st) x) = failing (sinks st x)"
  "closed (sinks (run_task e t st) x) = closed (sinks st x)"
  by (cases t; simp add: try_write_fields)+

lemma pending_tasks_cong:
  "timers st' = timers st \<Longrightarrow> pending_tasks st' x = pending_tasks st x"
  by (simp add: pending_tasks_def)

lemma script_received_run_task:
  "script_received (run_task e t st) x =
     (if is_script_task x t \<and> \<not> failing (sinks st x) \<and> \<not> closed (sinks st x)
      then script_received st x @
           [SSE (demo_notification e (DEMO_NOTIFICATIONS ! script_index t) (script_index t))]
      else script_received st x)"
  if "is_script_task x t \<Longrightarrow> t = DemoTask x (DEMO_NOTIFICATIONS ! script_index t) (script_index t)"
proof (cases t)
  case (WelcomeTask h)
  then show ?thesis
    by (simp add: script_received_def received_try_write welcome_not_script)
next
  case (DemoTask h s i)
  show ?thesis
  proof (cases "h = x")
    case True
    with DemoTask that have "s = DEMO_NOTIFICATIONS ! i" by simp
    with DemoTask True show ?thesis
      by (simp add: script_received_def received_try_write demo_is_script)
  next
    case False
    with DemoTask show ?thesis
      by (simp add: script_received_def received_try_write)
  qed
qed


lemma script_inv_fire:
  assumes inv: "script_inv x st" and f: "fire_timer e i st = Some st'"
  shows "script_inv x st'"
proof -
  let ?ts = "timers st"
  let ?t = "task (?ts ! i)"
  let ?st0 = "st\<lparr>timers := take i ?ts @ drop (Suc i) ?ts\<rparr>"
  let ?L = "length DEMO_NOTIFICATIONS"
  let ?A = "filter (is_script_task x) (map task (take i ?ts))"
  let ?B = "filter (is_script_task x) (map task (drop (Suc i) ?ts))"
  let ?R = "script_received st x"
  let ?dm = "\<lambda>t. digit (script_index t)"
  from f have i: "i < length ?ts" and st': "st' = run_task e ?t ?st0"
    by (simp_all add: fire_timer_def split: if_splits)
  note P = pending_tasks_remove [OF i, of x]
  from inv have demo: "DEMO_MODE st" and nf: "\<not> failing (sinks st x)"
    and pc: "\<forall>t\<in>set (pending_tasks st x). \<exists>j<?L. t = DemoTask x (DEMO_NOTIFICATIONS ! j) j"
    and rc: "\<forall>fr\<in>set ?R. \<exists>e j. j < ?L \<and> fr = SSE (demo_notification e (DEMO_NOTIFICATIONS ! j) j)"
    and d: "distinct (map frame_mark ?R @ map ?dm (pending_tasks st x))"
    and le: "length ?R + length (pending_tasks st x) \<le> ?L"
    and eq: "\<not> closed (sinks st x) \<longrightarrow> length ?R + length (pending_tasks st x) = ?L"
    by (simp_all add: script_inv_def)
  have P': "pending_tasks st' x = ?A @ ?B"
    using P(2) by (simp add: st' pending_tasks_def run_task_fields)
  have base: "DEMO_MODE st'" "failing (sinks st' x) = failing (sinks st x)"
    "closed (sinks st' x) = closed (sinks st x)"
    using demo by (simp_all add: st' run_task_fields)
  have R0: "script_received ?st0 x = ?R" by (simp add: script_received_def)
  have s0: "failing (sinks ?st0 x) = failing (sinks st x)"
    "closed (sinks ?st0 x) = closed (sinks st x)" by simp_all
  show ?thesis
  proof (cases "is_script_task x ?t")
    case False
    then have R': "script_received st' x = ?R"
      using script_received_run_task [of x ?t e ?st0] by (simp add: st' R0)
    from False P have "pending_tasks st' x = pending_tasks st x" by (simp add: P')
    with R' base nf pc rc d le eq show ?thesis by (simp add: script_inv_def)
  next
    case True
    with P(1) have mem: "?t \<in> set (pending_tasks st x)" by simp
    with pc obtain j where j: "j < ?L" "?t = DemoTask x (DEMO_NOTIFICATIONS ! j) j" by blast
    then have form: "?t = DemoTask x (DEMO_NOTIFICATIONS ! script_index ?t) (script_index ?t)"
      and ix: "script_index ?t = j" by simp_all
    let ?fr = "SSE (demo_notification e (DEMO_NOTIFICATIONS ! j) j)"
    have R': "script_received st' x = (if \<not> closed (sinks st x) then ?R @ [?fr] else ?R)"
      using script_received_run_task [of x ?t e ?st0] form True nf
      by (simp add: st' R0 ix)
    from j(1) have j10: "j < 10" by (simp add: length_DEMO_NOTIFICATIONS)
    have fm: "frame_mark ?fr = ?dm ?t" using j10 by (simp add: frame_mark_demo ix)
    from True P(1) have Pis: "pending_tasks st x = ?A @ [?t] @ ?B" by simp
    have pc': "\<forall>t\<in>set (pending_tasks st' x). \<exists>j<?L. t = DemoTask x (DEMO_NOTIFICATIONS ! j) j"
      using pc by (simp add: P' Pis)
    have rc': "\<forall>fr\<in>set (script_received st' x).
        \<exists>e j. j < ?L \<and> fr = SSE (demo_notification e (DEMO_NOTIFICATIONS ! j) j)"
      using rc j(1) by (auto simp: R')
    have d': "distinct (map frame_mark (script_received st' x) @ map ?dm (pending_tasks st' x))"
      using d by (auto simp: R' P' Pis fm)
    have le': "length (script_received st' x) + length (pending_tasks st' x) \<le> ?L"
      using le by (simp add: R' P' Pis)
    have eq': "\<not> closed (sinks st' x) \<longrightarrow>
        length (script_received st' x) + length (pending_tasks st' x) = ?L"
      using eq by (simp add: R' P' Pis base)
    from base nf pc' rc' d' le' eq' show ?thesis by (simp add: script_inv_def)
  qed
qed


lemma DEMO_MODE_register_client: "DEMO_MODE (register_client e k h st) = DEMO_MODE st"
proof -
  have s: "DEMO_MODE (schedule_samples e h ss i st') = DEMO_MODE st'" for ss i st'
    by (induction ss arbitrary: i st') (simp_all add: set_timeout_fields)
  show ?thesis
    by (simp add: register_client_def Let_def sendDemoNotificationsToClient_def s
        set_timeout_fields)
qed

lemma DEMO_MODE_get_events: "DEMO_MODE (snd (get_events e q h st)) = DEMO_MODE st"
  by (simp add: get_events_def Let_def DEMO_MODE_register_client split: option.splits)

lemma pending_tasks_register_client:
  "DEMO_MODE st \<Longrightarrow>
   pending_tasks (register_client e k h st) x =
     pending_tasks st x @
     (if h = x then map (\<lambda>(i, s). DemoTask h s i) (enumerate 0 DEMO_NOTIFICATIONS) else [])"
  by (simp add: pending_tasks_def timers_register_client filter_map o_def split_beta)

lemma sinks_get_events_other:
  "h \<noteq> x \<Longrightarrow> sinks (snd (get_events e q h st)) x = sinks st x"
  by (simp add: get_events_def Let_def register_client_fields split: option.splits)

lemma script_inv_cong:
  assumes "script_inv x st" "DEMO_MODE st' = DEMO_MODE st" "failing (sinks st' x) = failing (sinks st x)"
    "received (sinks st' x) = received (sinks st x)" "pending_tasks st' x = pending_tasks st x"
    "closed (sinks st x) \<longrightarrow> closed (sinks st' x)"
  shows "script_inv x st'"
  using assms by (auto simp: script_inv_def script_received_def)

lemma script_inv_open_other:
  assumes "script_inv x st" "h \<noteq> x"
  shows "script_inv x (snd (get_events e q h st))"
proof (rule script_inv_cong [OF assms(1)])
  from assms(1) have demo: "DEMO_MODE st" by (simp add: script_inv_def)
  show "DEMO_MODE (snd (get_events e q h st)) = DEMO_MODE st" by (rule DEMO_MODE_get_events)
  show "pending_tasks (snd (get_events e q h st)) x = pending_tasks st x"
    using demo assms(2)
    by (simp add: get_events_def Let_def pending_tasks_register_client split: option.splits)
       (simp add: pending_tasks_def)
qed (simp_all add: sinks_get_events_other assms(2))

lemma connection_closes_fields:
  "DEMO_MODE (connection_closes h k st) = DEMO_MODE st"
  "timers (connection_closes h k st) = timers st"
  "failing (sinks (connection_closes h k st) x) = failing (sinks st x)"
  "received (sinks (connection_closes h k st) x) = received (sinks st x)"
  "frames (sinks (connection_closes h k st) x) = frames (sinks st x)"
  "closed (sinks (connection_closes h k st) x) = (closed (sinks st x) \<or> h = x)"
  by (auto simp: connection_closes_def on_close_def Let_def)

lemma script_inv_step:
  assumes inv: "script_inv x st" and o: "opens ev \<noteq> Some x"
  shows "script_inv x (step P ev st)"
proof (cases ev)
  case (Fire e i)
  show ?thesis
  proof (cases "fire_timer e i st")
    case None
    with Fire inv show ?thesis by simp
  next
    case (Some st')
    with Fire script_inv_fire [OF inv Some] show ?thesis by simp
  qed
next
  case (Close h k)
  have "script_inv x (connection_closes h k st)"
    by (rule script_inv_cong [OF inv])
       (simp_all add: connection_closes_fields pending_tasks_def)
  with Close show ?thesis by simp
next
  case (Open e q h)
  with o have "h \<noteq> x" by auto
  with Open script_inv_open_other [OF inv] show ?thesis by simp
next
  case (Notify e body)
  from inv have "DEMO_MODE st" by (simp add: script_inv_def)
  with Notify inv show ?thesis by (simp add: post_notify_def)
next
  case (Push body)
  from inv have "DEMO_MODE st" by (simp add: script_inv_def)
  with Push inv show ?thesis by (simp add: post_pubsub_push_def)
qed

lemma script_inv_run:
  "script_inv x st \<Longrightarrow> \<forall>ev\<in>set evs. opens ev \<noteq> Some x \<Longrightarrow> script_inv x (run P evs st)"
proof (induction evs arbitrary: st)
  case Nil
  then show ?case by (simp add: run_def)
next
  case (Cons ev evs)
  from Cons.prems have "script_inv x (step P ev st)" by (simp add: script_inv_step)
  from Cons.IH [OF this] Cons.prems(2) show ?case by (simp add: run_def)
qed

lemma run_append: "run P (xs @ ys) st = run P ys (run P xs st)"
  by (simp add: run_def)

text \<open>Once a connection is gone, nothing reaches its client any more.\<close>

lemma frozen_step:
  assumes "DEMO_MODE st" "closed (sinks st x)"
  shows "DEMO_MODE (step P ev st) \<and> closed (sinks (step P ev st) x)
       \<and> received (sinks (step P ev st) x) = received (sinks st x)"
proof (cases ev)
  case (Fire e i)
  show ?thesis
  proof (cases "fire_timer e i st")
    case None
    with Fire assms show ?thesis by simp
  next
    case (Some st')
    then have "st' = run_task e (task (timers st ! i))
        (st\<lparr>timers := take i (timers st) @ drop (Suc i) (timers st)\<rparr>)"
      by (simp add: fire_timer_def split: if_splits)
    with assms have "DEMO_MODE st' \<and> closed (sinks st' x)
        \<and> received (sinks st' x) = received (sinks st x)"
      by (cases "task (timers st ! i)")
         (simp_all add: try_write_fields received_try_write)
    with Fire Some show ?thesis by simp
  qed
next
  case (Close h k)
  with assms show ?thesis by (simp add: connection_closes_fields)
next
  case (Open e q h)
  with assms show ?thesis
    by (simp add: DEMO_MODE_get_events)
       (auto simp: get_events_def Let_def register_client_fields sink_write_def)
next
  case (Notify e body)
  with assms show ?thesis by (simp add: post_notify_def)
next
  case (Push body)
  with assms show ?thesis by (simp add: post_pubsub_push_def)
qed

lemma frozen_run:
  "DEMO_MODE st \<Longrightarrow> closed (sinks st x) \<Longrightarrow>
   received (sinks (run P evs st) x) = received (sinks st x)"
proof (induction evs arbitrary: st)
  case Nil
  then show ?case by (simp add: run_def)
next
  case (Cons ev evs)
  from frozen_step [OF Cons.prems, of P ev]
  have s: "DEMO_MODE (step P ev st)" "closed (sinks (step P ev st) x)"
    "received (sinks (step P ev st) x) = received (sinks st x)" by simp_all
  from Cons.IH [OF s(1,2)] s(3) show ?case by (simp add: run_def)
qed

lemma DEMO_MODE_run:
  "script_inv x st \<Longrightarrow> \<forall>ev\<in>set evs. opens ev \<noteq> Some x \<Longrightarrow> DEMO_MODE (run P evs st)"
  using script_inv_run [of x st evs P] by (simp add: script_inv_def)

lemma script_inv_open:
  assumes demo: "DEMO_MODE st"
    and fresh: "sinks st res = \<lparr>failing = False, closed = False, frames = [], received = []\<rparr>"
    and notimers: "\<forall>t\<in>set (timers st). \<not> is_script_task res (task t)"
  shows "script_inv res (snd (get_events e q res st))"
proof -
  let ?st1 = "snd (get_events e q res st)"
  let ?D = DEMO_NOTIFICATIONS
  from fresh have ok: "\<not> failing (sinks st res)" by simp
  have p0: "pending_tasks st res = []"
    using notimers by (simp add: pending_tasks_def filter_empty_conv)
  have P: "pending_tasks ?st1 res = map (\<lambda>(i, s). DemoTask res s i) (enumerate 0 ?D)"
    using demo ok p0 by (simp add: get_events_accepting pending_tasks_register_client)
       (simp add: pending_tasks_def)
  have R: "script_received ?st1 res = []"
    using ok fresh
    by (simp add: get_events_accepting register_client_fields script_received_def
        connected_not_script)
  have s: "\<not> failing (sinks ?st1 res)" "\<not> closed (sinks ?st1 res)"
    using ok fresh by (simp_all add: get_events_accepting register_client_fields)
  have pc: "\<forall>t\<in>set (pending_tasks ?st1 res). \<exists>i<length ?D. t = DemoTask res (?D ! i) i"
    unfolding P by (auto simp: in_set_enumerate_eq)
  have "map (\<lambda>t. digit (script_index t)) (pending_tasks ?st1 res) =
      map (\<lambda>p. digit (fst p)) (enumerate 0 ?D)"
    unfolding P by (simp add: o_def split_beta)
  also have "\<dots> = map digit (map fst (enumerate 0 ?D))"
    by (simp only: map_map o_def)
  also have "\<dots> = map digit [0..<4]" by (simp add: length_DEMO_NOTIFICATIONS)
  finally have m: "map (\<lambda>t. digit (script_index t)) (pending_tasks ?st1 res) =
      map digit [0..<4]" .
  have "inj_on digit {0..<4}"
    using digit_distinct by (auto simp: inj_on_def) blast
  then have "distinct (map (\<lambda>t. digit (script_index t)) (pending_tasks ?st1 res))"
    unfolding m by (simp add: distinct_map)
  moreover have "length (pending_tasks ?st1 res) = length ?D" unfolding P by simp
  ultimately show ?thesis
    using pc R s demo by (simp add: script_inv_def DEMO_MODE_get_events)
qed

lemma distinct_map_inner: "distinct (map (\<lambda>x. g (f x)) xs) \<Longrightarrow> distinct (map f xs)"
  by (induction xs) auto


lemma fire_timer_closed:
  assumes "closed (sinks st x)" "fire_timer e i st = Some st'"
  shows "received (sinks st' x) = received (sinks st x) \<and> clients st' = clients st
       \<and> console st' = console st
       \<and> timers st' = take i (timers st) @ drop (Suc i) (timers st)"
proof -
  from assms(2) have "st' = run_task e (task (timers st ! i))
      (st\<lparr>timers := take i (timers st) @ drop (Suc i) (timers st)\<rparr>)"
    by (simp add: fire_timer_def split: if_splits)
  with assms(1) show ?thesis
    by (cases "task (timers st ! i)")
       (simp_all add: try_write_fields received_try_write)
qed

lemma fire_timer_open:
  assumes "\<not> closed (sinks st x)" "\<not> failing (sinks st x)"
    and "i < length (timers st)" "due (timers st ! i) \<le> date_now e"
    and "task (timers st ! i) = DemoTask x s j"
  shows "\<exists>st'. fire_timer e i st = Some st'
       \<and> received (sinks st' x) =
           received (sinks st x) @ [SSE (demo_notification e s j)]
       \<and> timers st' = take i (timers st) @ drop (Suc i) (timers st)"
  using assms by (simp add: fire_timer_def try_write_fields received_try_write)

lemma filter_const_le1:
  "distinct (map f xs) \<Longrightarrow> (\<forall>x\<in>set xs. P x \<longrightarrow> f x = c) \<Longrightarrow> length (filter P xs) \<le> 1"
proof (induction xs)
  case Nil
  then show ?case by simp
next
  case (Cons x xs)
  show ?case
  proof (cases "P x")
    case False
    with Cons show ?thesis by simp
  next
    case True
    with Cons.prems have fx: "f x = c" and nin: "f x \<notin> f ` set xs" by simp_all
    have "filter P xs = []"
    proof (rule ccontr)
      assume "filter P xs \<noteq> []"
      then obtain y where y: "y \<in> set xs" "P y"
        by (auto simp: filter_empty_conv)
      with Cons.prems have "f y = c" by simp
      moreover from y have "f y \<in> f ` set xs" by simp
      ultimately show False using fx nin by simp
    qed
    with True show ?thesis by simp
  qed
qed

lemma script_inv_at_most_once:
  assumes inv: "script_inv x st" and i: "i < length DEMO_NOTIFICATIONS"
  shows "length (filter (\<lambda>fr. \<exists>e::env. fr = SSE (demo_notification e (DEMO_NOTIFICATIONS ! i) i))
           (script_received st x)) \<le> 1"
proof -
  from inv have d: "distinct (map frame_mark (script_received st x))"
    by (simp add: script_inv_def)
  from i have "i < 10" by (simp add: length_DEMO_NOTIFICATIONS)
  then have "\<forall>fr\<in>set (script_received st x).
      (\<exists>e::env. fr = SSE (demo_notification e (DEMO_NOTIFICATIONS ! i) i)) \<longrightarrow>
      frame_mark fr = digit i"
    by (auto simp: frame_mark_demo)
  with d show ?thesis by (rule filter_const_le1)
qed

lemma script_inv_exactly_once:
  assumes inv: "script_inv x st" and i: "i < length DEMO_NOTIFICATIONS"
    and full: "length (script_received st x) = length DEMO_NOTIFICATIONS"
  shows "length (filter (\<lambda>fr. \<exists>e::env. fr = SSE (demo_notification e (DEMO_NOTIFICATIONS ! i) i))
           (script_received st x)) = 1"
proof -
  let ?xs = "script_received st x"
  let ?P = "\<lambda>fr. \<exists>e::env. fr = SSE (demo_notification e (DEMO_NOTIFICATIONS ! i) i)"
  from inv have d: "distinct (map frame_mark ?xs)"
    by (simp add: script_inv_def)
  from inv have form: "\<forall>fr\<in>set ?xs. \<exists>(e::env) j. j < length DEMO_NOTIFICATIONS
               \<and> fr = SSE (demo_notification e (DEMO_NOTIFICATIONS ! j) j)"
    unfolding script_inv_def by blast
  have sub: "frame_mark ` set ?xs \<subseteq> digit ` {..<4}"
  proof
    fix c assume "c \<in> frame_mark ` set ?xs"
    then obtain fr where fr: "fr \<in> set ?xs" "c = frame_mark fr" by blast
    with form obtain e :: env and j where j: "j < length DEMO_NOTIFICATIONS"
      "fr = SSE (demo_notification e (DEMO_NOTIFICATIONS ! j) j)" by blast
    then have "frame_mark fr = digit j" "j < 4"
      by (simp_all add: frame_mark_demo length_DEMO_NOTIFICATIONS)
    with fr show "c \<in> digit ` {..<4}" by simp
  qed
  from d have "card (frame_mark ` set ?xs) = length ?xs"
    using distinct_card [of "map frame_mark ?xs"] by simp
  with full have c4: "card (frame_mark ` set ?xs) = 4"
    by (simp add: length_DEMO_NOTIFICATIONS)
  have "card (digit ` {..<4::nat}) \<le> 4"
    using card_image_le [of "{..<4::nat}" digit] by simp
  with c4 sub have "frame_mark ` set ?xs = digit ` {..<4}"
    by (intro card_seteq) simp_all
  moreover from i have "digit i \<in> digit ` {..<4}"
    by (simp add: length_DEMO_NOTIFICATIONS)
  ultimately obtain fr where fr: "fr \<in> set ?xs" "frame_mark fr = digit i" by force
  with form obtain e :: env and j where j: "j < length DEMO_NOTIFICATIONS"
    "fr = SSE (demo_notification e (DEMO_NOTIFICATIONS ! j) j)" by blast
  then have "frame_mark fr = digit j" "j < 4"
    by (simp_all add: frame_mark_demo length_DEMO_NOTIFICATIONS)
  with fr i have "j = i"
    using digit_distinct [of i j] by (auto simp: length_DEMO_NOTIFICATIONS)
  with j fr have "fr \<in> set (filter ?P ?xs)" by auto
  then have "1 \<le> length (filter ?P ?xs)"
    by (cases "filter ?P ?xs") simp_all
  moreover have "length (filter ?P ?xs) \<le> 1"
    using inv i by (rule script_inv_at_most_once)
  ultimately show ?thesis by (rule antisym [rotated])
qed

section \<open>Properties of broadcast\<close>

text \<open>
  C1. When the write to one registered sink fails during a broadcast, that connection
  is gone from the registry afterwards, and every other registered connection whose
  sink accepts writes stays registered and receives the frame (once per registration
  of its sink). When exactly one of the N registered sinks fails, the count of
  successful deliveries is N - 1 and N - 1 connections remain.
\<close>

theorem broadcast_isolates_failure:
  assumes wf: "wf_map (clients st)"
    and reg: "(k, h) \<in> set (snapshot st)"
    and bad: "failing (sinks st h)"
  shows "k \<notin> set (map_keys (clients (snd (broadcastToClients note st))))
       \<and> (\<forall>k' h'. (k', h') \<in> set (snapshot st) \<and> \<not> failing (sinks st h') \<longrightarrow>
             k' \<in> set (map_keys (clients (snd (broadcastToClients note st))))
           \<and> frames (sinks (snd (broadcastToClients note st)) h') =
               frames (sinks st h') @
               replicate (length (filter (\<lambda>e. snd e = h') (snapshot st))) (SSE note)
           \<and> 0 < length (filter (\<lambda>e. snd e = h') (snapshot st)))
       \<and> (length (filter (\<lambda>e. failing (sinks st (snd e))) (snapshot st)) = 1 \<longrightarrow>
            last (console (snd (broadcastToClients note st))) =
              LogDelivered (map_size (clients st) - 1)
          \<and> map_size (clients (snd (broadcastToClients note st))) = map_size (clients st) - 1)"
proof (intro conjI allI impI)
  let ?st' = "snd (broadcastToClients note st)"
  let ?ok = "\<lambda>e. \<not> failing (sinks st (snd e))"
  have keys: "map_keys (clients ?st') = map fst (filter ?ok (snapshot st))"
    using wf by (simp add: map_keys_def broadcast_entries)
  have d: "distinct (map fst (snapshot st))"
    using wf by (simp add: wf_map_def map_keys_def snapshot_def)
  show "k \<notin> set (map_keys (clients ?st'))"
  proof
    assume "k \<in> set (map_keys (clients ?st'))"
    with keys obtain h2 where h2: "(k, h2) \<in> set (snapshot st)" "\<not> failing (sinks st h2)"
      by auto
    from d h2(1) reg have "h2 = h" by (rule eq_key_imp_eq_value)
    with h2(2) bad show False by simp
  qed
next
  fix k' h' assume a: "(k', h') \<in> set (snapshot st) \<and> \<not> failing (sinks st h')"
  let ?st' = "snd (broadcastToClients note st)"
  let ?ok = "\<lambda>e. \<not> failing (sinks st (snd e))"
  have keys: "map_keys (clients ?st') = map fst (filter ?ok (snapshot st))"
    using wf by (simp add: map_keys_def broadcast_entries)
  from a have "(k', h') \<in> set (filter ?ok (snapshot st))" by simp
  then show "k' \<in> set (map_keys (clients ?st'))" unfolding keys by force
  have "filter (\<lambda>e. snd e = h' \<and> \<not> failing (sinks st h')) (snapshot st) =
        filter (\<lambda>e. snd e = h') (snapshot st)"
    using a by simp
  with wf show "frames (sinks ?st' h') =
      frames (sinks st h') @ replicate (length (filter (\<lambda>e. snd e = h') (snapshot st))) (SSE note)"
    by (simp add: broadcast_frames)
  from a have "(k', h') \<in> set (filter (\<lambda>e. snd e = h') (snapshot st))" by simp
  then show "0 < length (filter (\<lambda>e. snd e = h') (snapshot st))"
    by (metis length_pos_if_in_set)
next
  assume one: "length (filter (\<lambda>e. failing (sinks st (snd e))) (snapshot st)) = 1"
  let ?st' = "snd (broadcastToClients note st)"
  let ?ok = "\<lambda>e. \<not> failing (sinks st (snd e))"
  have "length (filter (\<lambda>e. failing (sinks st (snd e))) (snapshot st)) +
        length (filter ?ok (snapshot st)) = length (snapshot st)"
    by (rule sum_length_filter_compl)
  with one have n: "length (filter ?ok (snapshot st)) = map_size (clients st) - 1"
    by (simp add: map_size_def snapshot_def)
  with wf show "last (console ?st') = LogDelivered (map_size (clients st) - 1)"
    by (simp add: broadcast_console)
  from wf n show "map_size (clients ?st') = map_size (clients st) - 1"
    by (simp add: map_size_def broadcast_entries)
qed

theorem broadcast_isolates_failure_witness:
  "wf_map (clients st_abc) \<and> (''b'', 1) \<in> set (snapshot st_abc) \<and> failing (sinks st_abc 1)
   \<and> ''b'' \<notin> set (map_keys (clients (snd (broadcastToClients note0 st_abc))))
   \<and> ''a'' \<in> set (map_keys (clients (snd (broadcastToClients note0 st_abc))))
   \<and> frames (sinks (snd (broadcastToClients note0 st_abc)) 0) = [SSE note0]
   \<and> last (console (snd (broadcastToClients note0 st_abc))) = LogDelivered 2
   \<and> map_size (clients (snd (broadcastToClients note0 st_abc))) = 2"
proof -
  have wf: "wf_map (clients st_abc)"
    by (simp add: st_abc_def wf_map_def map_keys_def)
  have reg: "(''b'', 1) \<in> set (snapshot st_abc)"
    by (simp add: st_abc_def snapshot_def)
  have bad: "failing (sinks st_abc 1)"
    by (simp add: st_abc_def)
  note T = broadcast_isolates_failure [OF wf reg bad, of note0]
  have a: "(''a'', 0) \<in> set (snapshot st_abc) \<and> \<not> failing (sinks st_abc 0)"
    by (simp add: st_abc_def snapshot_def)
  have one: "length (filter (\<lambda>e. failing (sinks st_abc (snd e))) (snapshot st_abc)) = 1"
    by (simp add: st_abc_def snapshot_def)
  have n: "map_size (clients st_abc) = 3"
    by (simp add: st_abc_def map_size_def)
  have c: "length (filter (\<lambda>e. snd e = 0) (snapshot st_abc)) = 1"
    by (simp add: st_abc_def snapshot_def)
  have f0: "frames (sinks st_abc 0) = []"
    by (simp add: st_abc_def)
  from T a have "''a'' \<in> set (map_keys (clients (snd (broadcastToClients note0 st_abc))))"
    by blast
  moreover from T a
  have "frames (sinks (snd (broadcastToClients note0 st_abc)) 0) =
          frames (sinks st_abc 0) @
          replicate (length (filter (\<lambda>e. snd e = 0) (snapshot st_abc))) (SSE note0)"
    by blast
  with c f0 have "frames (sinks (snd (broadcastToClients note0 st_abc)) 0) = [SSE note0]"
    by simp
  moreover from T one n
  have "last (console (snd (broadcastToClients note0 st_abc))) = LogDelivered 2"
    "map_size (clients (snd (broadcastToClients note0 st_abc))) = 2"
    by simp_all
  moreover from T
  have "''b'' \<notin> set (map_keys (clients (snd (broadcastToClients note0 st_abc))))"
    by blast
  ultimately show ?thesis using wf reg bad by blast
qed

text \<open>
  C2, as stated, against the code: \<^verbatim>\<open>broadcastToClients\<close> returns nothing. With two
  accepting sinks among three, its value is \<^verbatim>\<open>undefined\<close>, not the number 2.
\<close>

theorem broadcast_returns_undefined_counterexample:
  "length (filter (\<lambda>e. \<not> failing (sinks st_abc (snd e))) (snapshot st_abc)) = 2
   \<and> fst (broadcastToClients note0 st_abc) \<noteq> JNum 2
   \<and> fst (broadcastToClients note0 st_abc) = JUndefined"
  by (simp add: broadcastToClients_def split_beta st_abc_def snapshot_def)

text \<open>
  C2, amended. The broadcast returns \<^verbatim>\<open>undefined\<close>; the count of successful
  deliveries it computes is written to the console, and it equals the number of
  registered connections whose sink accepted the write, which is also the number of
  connections that remain registered.
\<close>

theorem broadcast_logs_delivery_count:
  assumes wf: "wf_map (clients st)"
  shows "fst (broadcastToClients note st) = JUndefined
       \<and> last (console (snd (broadcastToClients note st))) =
           LogDelivered (length (filter (\<lambda>e. \<not> failing (sinks st (snd e))) (snapshot st)))
       \<and> map_size (clients (snd (broadcastToClients note st))) =
           length (filter (\<lambda>e. \<not> failing (sinks st (snd e))) (snapshot st))"
  using wf by (simp add: broadcast_console map_size_def broadcast_entries)
     (simp add: broadcastToClients_def split_beta)

theorem broadcast_logs_delivery_count_witness:
  "wf_map (clients st_abc)
   \<and> fst (broadcastToClients note0 st_abc) = JUndefined
   \<and> last (console (snd (broadcastToClients note0 st_abc))) = LogDelivered 2
   \<and> map_size (clients (snd (broadcastToClients note0 st_abc))) = 2"
proof -
  have wf: "wf_map (clients st_abc)"
    by (simp add: st_abc_def wf_map_def map_keys_def)
  have c: "length (filter (\<lambda>e. \<not> failing (sinks st_abc (snd e))) (snapshot st_abc)) = 2"
    by (simp add: st_abc_def snapshot_def)
  from broadcast_logs_delivery_count [OF wf, of note0] c wf show ?thesis by simp
qed

text \<open>
  C3. The iteration over the live map attempts delivery to exactly the connections
  registered when the broadcast was invoked, each once and in order: it equals the
  fan-out over a snapshot taken at invocation, whatever entries the broadcast itself
  removes on the way. Every accepting sink of the snapshot receives the frame once per
  registration, and every failing entry is logged once.
\<close>

theorem broadcast_visits_snapshot:
  assumes wf: "wf_map (clients st)"
  shows "forEach_from (SSE note) 0 (st, 0) = fanout (SSE note) (snapshot st) (st, 0)
       \<and> distinct (map fst (snapshot st))
       \<and> (\<forall>x. frames (sinks (snd (broadcastToClients note st)) x) =
                frames (sinks st x) @
                replicate
                  (length (filter (\<lambda>e. snd e = x \<and> \<not> failing (sinks st x)) (snapshot st)))
                  (SSE note))
       \<and> console (snd (broadcastToClients note st)) =
           console st @
           map (\<lambda>e. LogSendError (fst e))
             (filter (\<lambda>e. failing (sinks st (snd e))) (snapshot st)) @
           [LogDelivered (length (filter (\<lambda>e. \<not> failing (sinks st (snd e))) (snapshot st)))]"
proof (intro conjI allI)
  show "forEach_from (SSE note) 0 (st, 0) = fanout (SSE note) (snapshot st) (st, 0)"
    using wf forEach_from_fanout [of "(st, 0)" "SSE note" 0] by (simp add: snapshot_def)
  show "distinct (map fst (snapshot st))"
    using wf by (simp add: wf_map_def map_keys_def snapshot_def)
  show "frames (sinks (snd (broadcastToClients note st)) x) =
          frames (sinks st x) @
          replicate
            (length (filter (\<lambda>e. snd e = x \<and> \<not> failing (sinks st x)) (snapshot st)))
            (SSE note)" for x
    using wf by (rule broadcast_frames)
  show "console (snd (broadcastToClients note st)) =
           console st @
           map (\<lambda>e. LogSendError (fst e))
             (filter (\<lambda>e. failing (sinks st (snd e))) (snapshot st)) @
           [LogDelivered (length (filter (\<lambda>e. \<not> failing (sinks st (snd e))) (snapshot st)))]"
    using wf by (rule broadcast_console)
qed

theorem broadcast_visits_snapshot_witness:
  "wf_map (clients st_abc)
   \<and> snapshot st_abc = [(''a'', 0), (''b'', 1), (''c'', 2)]
   \<and> forEach_from (SSE note0) 0 (st_abc, 0) = fanout (SSE note0) (snapshot st_abc) (st_abc, 0)
   \<and> frames (sinks (snd (broadcastToClients note0 st_abc)) 0) = [SSE note0]
   \<and> frames (sinks (snd (broadcastToClients note0 st_abc)) 1) = []
   \<and> frames (sinks (snd (broadcastToClients note0 st_abc)) 2) = [SSE note0]
   \<and> console (snd (broadcastToClients note0 st_abc)) = [LogSendError ''b'', LogDelivered 2]"
proof -
  have wf: "wf_map (clients st_abc)"
    by (simp add: st_abc_def wf_map_def map_keys_def)
  have snap: "snapshot st_abc = [(''a'', 0), (''b'', 1), (''c'', 2)]"
    by (simp add: st_abc_def snapshot_def)
  have s: "sinks st_abc = (\<lambda>h. \<lparr>failing = (h = 1), closed = False, frames = [], received = []\<rparr>)" "console st_abc = []"
    by (simp_all add: st_abc_def)
  note T = broadcast_visits_snapshot [OF wf, of note0]
  from T have "forEach_from (SSE note0) 0 (st_abc, 0) =
      fanout (SSE note0) (snapshot st_abc) (st_abc, 0)" by blast
  moreover from T have
    "\<forall>x. frames (sinks (snd (broadcastToClients note0 st_abc)) x) =
                frames (sinks st_abc x) @
                replicate
                  (length (filter (\<lambda>e. snd e = x \<and> \<not> failing (sinks st_abc x)) (snapshot st_abc)))
                  (SSE note0)" by blast
  then have "frames (sinks (snd (broadcastToClients note0 st_abc)) 0) = [SSE note0]"
    "frames (sinks (snd (broadcastToClients note0 st_abc)) 1) = []"
    "frames (sinks (snd (broadcastToClients note0 st_abc)) 2) = [SSE note0]"
    by (simp_all add: snap s)
  moreover from T have
    "console (snd (broadcastToClients note0 st_abc)) = [LogSendError ''b'', LogDelivered 2]"
    by (simp add: snap s)
  ultimately show ?thesis using wf snap by blast
qed

section \<open>Properties of the producers\<close>

text \<open>
  C4, evaluated on the code. The pull handler and the push endpoint read
  \<^verbatim>\<open>data.message\<close> without checking it: for the payload \<^verbatim>\<open>{}\<close> each of them
  broadcasts a notification whose message is \<^verbatim>\<open>undefined\<close>, and the push endpoint
  answers 200.
\<close>

theorem upstream_adapters_broadcast_missing_body:
  "frames (sinks (handlePubSubMessage toy_platform msg_empty st_one) 0) =
     [SSE (notification (JStr ''m1'') (JStr default_title) JUndefined (JStr ''info'')
         (JStr ''2024-01-01T00:00:00.000Z'') ''pubsub'')]
   \<and> frames (sinks (snd (post_pubsub_push toy_platform push_empty st_one)) 0) =
     [SSE (notification (JStr ''m4'') (JStr default_title) JUndefined (JStr ''info'')
         (JStr ''2024-01-01T00:00:00.000Z'') ''pubsub-push'')]
   \<and> fst (post_pubsub_push toy_platform push_empty st_one) = ReplyText 200 ''OK''
   \<and> body_of (notification (JStr ''m1'') (JStr default_title) JUndefined (JStr ''info'')
         (JStr ''2024-01-01T00:00:00.000Z'') ''pubsub'') = JUndefined
   \<and> \<not> truthy JUndefined"
proof (intro conjI)
  show "frames (sinks (handlePubSubMessage toy_platform msg_empty st_one) 0) =
     [SSE (notification (JStr ''m1'') (JStr default_title) JUndefined (JStr ''info'')
         (JStr ''2024-01-01T00:00:00.000Z'') ''pubsub'')]"
    by (simp add: handlePubSubMessage_def toy_platform_def msg_empty_def st_one_def
        broadcastToClients_def forEach_from.simps deliver_def sink_write_def ack_def js_or_def)
  show "frames (sinks (snd (post_pubsub_push toy_platform push_empty st_one)) 0) =
     [SSE (notification (JStr ''m4'') (JStr default_title) JUndefined (JStr ''info'')
         (JStr ''2024-01-01T00:00:00.000Z'') ''pubsub-push'')]"
    by (simp add: post_pubsub_push_def toy_platform_def push_empty_def st_one_def
        broadcastToClients_def forEach_from.simps deliver_def sink_write_def js_or_def)
  show "fst (post_pubsub_push toy_platform push_empty st_one) = ReplyText 200 ''OK''"
    by (simp add: post_pubsub_push_def toy_platform_def push_empty_def st_one_def)
  show "body_of (notification (JStr ''m1'') (JStr default_title) JUndefined (JStr ''info'')
         (JStr ''2024-01-01T00:00:00.000Z'') ''pubsub'') = JUndefined"
    by (simp add: body_of_def notification_def)
  show "\<not> truthy JUndefined" by simp
qed

text \<open>
  C5. The pull handler acknowledges every message exactly once, whatever the payload.
  When the payload parses to a value whose fields can be read, the handler writes one
  envelope to every registered connection whose sink accepts it, and acknowledges only
  then: in the journal the acknowledgement comes after all the writes of the
  broadcast, and each of these sinks holds the envelope as its newest frame. The
  envelope carries the id and the publish time of the message, the
  title and the type of the payload or their defaults, the message of the payload, and
  the source \<^verbatim>\<open>pubsub\<close>. When \<^verbatim>\<open>JSON.parse\<close> throws, or the payload is \<^verbatim>\<open>null\<close>, the
  handler logs the error and acknowledges, and nothing else changes: no sink is
  written and the registry is as before.
\<close>

theorem pull_broadcasts_then_acks:
  assumes wf: "wf_map (clients st)"
  shows "acked (handlePubSubMessage P m st) = acked st @ [msg_id m]
   \<and> (\<forall>data t b ty.
         JSON_parse P (msg_data m) = Some data \<and> js_get data ''title'' = Some t
         \<and> js_get data ''message'' = Some b \<and> js_get data ''type'' = Some ty \<longrightarrow>
         journal (handlePubSubMessage P m st) =
           journal st @
           map (\<lambda>e. Wrote (snd e)
                  (SSE (JObj [(''type'', JStr ''notification''),
                     (''data'', JObj
                        [(''id'', JStr (msg_id m)),
                         (''title'', if truthy t then t else JStr default_title),
                         (''message'', b),
                         (''notificationType'', if truthy ty then ty else JStr ''info''),
                         (''timestamp'', JStr (msg_publishTime m)),
                         (''source'', JStr ''pubsub'')])])))
             (filter (\<lambda>e. \<not> failing (sinks st (snd e))) (snapshot st)) @
           [Acked (msg_id m)]
       \<and> console (handlePubSubMessage P m st) =
           console st @ [LogPubSubReceived data] @
           map (\<lambda>e. LogSendError (fst e))
             (filter (\<lambda>e. failing (sinks st (snd e))) (snapshot st)) @
           [LogDelivered (length (filter (\<lambda>e. \<not> failing (sinks st (snd e))) (snapshot st)))]
       \<and> snapshot (handlePubSubMessage P m st) =
           filter (\<lambda>e. \<not> failing (sinks st (snd e))) (snapshot st)
       \<and> (\<forall>x. frames (sinks (handlePubSubMessage P m st) x) =
             frames (sinks st x) @
             replicate
               (length (filter (\<lambda>e. snd e = x \<and> \<not> failing (sinks st x)) (snapshot st)))
               (SSE (JObj [(''type'', JStr ''notification''),
                     (''data'', JObj
                        [(''id'', JStr (msg_id m)),
                         (''title'', if truthy t then t else JStr default_title),
                         (''message'', b),
                         (''notificationType'', if truthy ty then ty else JStr ''info''),
                         (''timestamp'', JStr (msg_publishTime m)),
                         (''source'', JStr ''pubsub'')])]))))
   \<and> (JSON_parse P (msg_data m) = None \<longrightarrow>
         handlePubSubMessage P m st =
           st\<lparr>console := console st @ [LogMessageError],
              acked := acked st @ [msg_id m],
              journal := journal st @ [Acked (msg_id m)]\<rparr>)
   \<and> (\<forall>data. JSON_parse P (msg_data m) = Some data \<and> (data = JNull \<or> data = JUndefined) \<longrightarrow>
         handlePubSubMessage P m st =
           st\<lparr>console := console st @ [LogPubSubReceived data, LogMessageError],
              acked := acked st @ [msg_id m],
              journal := journal st @ [Acked (msg_id m)]\<rparr>)"
proof (intro conjI allI impI)
  show "acked (handlePubSubMessage P m st) = acked st @ [msg_id m]"
    by (simp add: handlePubSubMessage_def pull_catch_def ack_def acked_broadcast Let_def
        split: option.splits)
next
  fix data t b ty
  assume a: "JSON_parse P (msg_data m) = Some data \<and> js_get data ''title'' = Some t
         \<and> js_get data ''message'' = Some b \<and> js_get data ''type'' = Some ty"
  let ?env = "JObj [(''type'', JStr ''notification''),
                     (''data'', JObj
                        [(''id'', JStr (msg_id m)),
                         (''title'', if truthy t then t else JStr default_title),
                         (''message'', b),
                         (''notificationType'', if truthy ty then ty else JStr ''info''),
                         (''timestamp'', JStr (msg_publishTime m)),
                         (''source'', JStr ''pubsub'')])]"
  let ?st1 = "st\<lparr>console := console st @ [LogPubSubReceived data]\<rparr>"
  have wf1: "wf_map (clients ?st1)" using wf by simp
  have s1: "snapshot ?st1 = snapshot st" "sinks ?st1 = sinks st" by (simp_all add: snapshot_def)
  from a have h: "handlePubSubMessage P m st = ack m (snd (broadcastToClients ?env ?st1))"
    by (simp add: handlePubSubMessage_def notification_def js_or_def)
  show "journal (handlePubSubMessage P m st) =
           journal st @
           map (\<lambda>e. Wrote (snd e) (SSE ?env))
             (filter (\<lambda>e. \<not> failing (sinks st (snd e))) (snapshot st)) @
           [Acked (msg_id m)]"
    unfolding h using broadcast_journal [OF wf1, of ?env] by (simp add: ack_def s1)
  show "console (handlePubSubMessage P m st) =
           console st @ [LogPubSubReceived data] @
           map (\<lambda>e. LogSendError (fst e))
             (filter (\<lambda>e. failing (sinks st (snd e))) (snapshot st)) @
           [LogDelivered (length (filter (\<lambda>e. \<not> failing (sinks st (snd e))) (snapshot st)))]"
    unfolding h using broadcast_console [OF wf1, of ?env] by (simp add: ack_def s1)
  show "snapshot (handlePubSubMessage P m st) =
           filter (\<lambda>e. \<not> failing (sinks st (snd e))) (snapshot st)"
    unfolding h using broadcast_entries [OF wf1, of ?env] by (simp add: ack_def s1 snapshot_def)
  fix x
  show "frames (sinks (handlePubSubMessage P m st) x) =
             frames (sinks st x) @
             replicate
               (length (filter (\<lambda>e. snd e = x \<and> \<not> failing (sinks st x)) (snapshot st)))
               (SSE ?env)"
    unfolding h using broadcast_frames [OF wf1, of ?env x] by (simp add: ack_def s1)
next
  assume "JSON_parse P (msg_data m) = None"
  then show "handlePubSubMessage P m st =
           st\<lparr>console := console st @ [LogMessageError],
              acked := acked st @ [msg_id m],
              journal := journal st @ [Acked (msg_id m)]\<rparr>"
    by (simp add: handlePubSubMessage_def pull_catch_def ack_def)
next
  fix data
  assume a: "JSON_parse P (msg_data m) = Some data \<and> (data = JNull \<or> data = JUndefined)"
  then have "js_get data ''title'' = None" by auto
  with a show "handlePubSubMessage P m st =
           st\<lparr>console := console st @ [LogPubSubReceived data, LogMessageError],
              acked := acked st @ [msg_id m],
              journal := journal st @ [Acked (msg_id m)]\<rparr>"
    by (simp add: handlePubSubMessage_def pull_catch_def ack_def)
qed


theorem pull_broadcasts_then_acks_witness:
  "wf_map (clients st_one)
   \<and> acked (handlePubSubMessage toy_platform msg_empty st_one) = [''m1'']
   \<and> journal (handlePubSubMessage toy_platform msg_empty st_one) =
       [Wrote 0 (SSE (JObj [(''type'', JStr ''notification''),
                     (''data'', JObj
                        [(''id'', JStr ''m1''),
                         (''title'', JStr default_title),
                         (''message'', JUndefined),
                         (''notificationType'', JStr ''info''),
                         (''timestamp'', JStr ''2024-01-01T00:00:00.000Z''),
                         (''source'', JStr ''pubsub'')])])),
        Acked ''m1'']
   \<and> console (handlePubSubMessage toy_platform msg_empty st_one) =
       [LogPubSubReceived (JObj []), LogDelivered 1]
   \<and> frames (sinks (handlePubSubMessage toy_platform msg_empty st_one) 0) =
       [SSE (JObj [(''type'', JStr ''notification''),
                     (''data'', JObj
                        [(''id'', JStr ''m1''),
                         (''title'', JStr default_title),
                         (''message'', JUndefined),
                         (''notificationType'', JStr ''info''),
                         (''timestamp'', JStr ''2024-01-01T00:00:00.000Z''),
                         (''source'', JStr ''pubsub'')])])]
   \<and> handlePubSubMessage toy_platform msg_bad st_one =
       st_one\<lparr>console := [LogMessageError], acked := [''m3''], journal := [Acked ''m3'']\<rparr>
   \<and> handlePubSubMessage toy_platform msg_null st_one =
       st_one\<lparr>console := [LogPubSubReceived JNull, LogMessageError], acked := [''m2''],
              journal := [Acked ''m2'']\<rparr>"
proof -
  have wf: "wf_map (clients st_one)" by (simp add: st_one_def wf_map_def map_keys_def)
  have p1: "JSON_parse toy_platform (msg_data msg_empty) = Some (JObj [])
      \<and> js_get (JObj []) ''title'' = Some JUndefined
      \<and> js_get (JObj []) ''message'' = Some JUndefined
      \<and> js_get (JObj []) ''type'' = Some JUndefined"
    by (simp add: toy_platform_def msg_empty_def)
  have p2: "JSON_parse toy_platform (msg_data msg_bad) = None"
    by (simp add: toy_platform_def msg_bad_def)
  have p3: "JSON_parse toy_platform (msg_data msg_null) = Some JNull
      \<and> (JNull = JNull \<or> JNull = JUndefined)"
    by (simp add: toy_platform_def msg_null_def)
  have s: "acked st_one = []" "console st_one = []" "journal st_one = []"
    "snapshot st_one = [(''a'', 0)]" "\<not> failing (sinks st_one 0)"
    "frames (sinks st_one 0) = []"
    by (simp_all add: st_one_def snapshot_def)
  have i: "msg_id msg_empty = ''m1''" "msg_id msg_bad = ''m3''" "msg_id msg_null = ''m2''"
    "msg_publishTime msg_empty = ''2024-01-01T00:00:00.000Z''"
    by (simp_all add: msg_empty_def msg_bad_def msg_null_def)
  note T1 = pull_broadcasts_then_acks [OF wf, of toy_platform msg_empty]
  note T2 = pull_broadcasts_then_acks [OF wf, of toy_platform msg_bad]
  note T3 = pull_broadcasts_then_acks [OF wf, of toy_platform msg_null]
  from T1 s i have a: "acked (handlePubSubMessage toy_platform msg_empty st_one) = [''m1'']"
    by simp
  from T1 p1 have "journal (handlePubSubMessage toy_platform msg_empty st_one) =
           journal st_one @
           map (\<lambda>e. Wrote (snd e)
                  (SSE (JObj [(''type'', JStr ''notification''),
                     (''data'', JObj
                        [(''id'', JStr (msg_id msg_empty)),
                         (''title'', if truthy JUndefined then JUndefined else JStr default_title),
                         (''message'', JUndefined),
                         (''notificationType'',
                            if truthy JUndefined then JUndefined else JStr ''info''),
                         (''timestamp'', JStr (msg_publishTime msg_empty)),
                         (''source'', JStr ''pubsub'')])])))
             (filter (\<lambda>e. \<not> failing (sinks st_one (snd e))) (snapshot st_one)) @
           [Acked (msg_id msg_empty)]
       \<and> console (handlePubSubMessage toy_platform msg_empty st_one) =
           console st_one @ [LogPubSubReceived (JObj [])] @
           map (\<lambda>e. LogSendError (fst e))
             (filter (\<lambda>e. failing (sinks st_one (snd e))) (snapshot st_one)) @
           [LogDelivered
              (length (filter (\<lambda>e. \<not> failing (sinks st_one (snd e))) (snapshot st_one)))]
       \<and> frames (sinks (handlePubSubMessage toy_platform msg_empty st_one) 0) =
             frames (sinks st_one 0) @
             replicate
               (length (filter (\<lambda>e. snd e = 0 \<and> \<not> failing (sinks st_one 0)) (snapshot st_one)))
               (SSE (JObj [(''type'', JStr ''notification''),
                     (''data'', JObj
                        [(''id'', JStr (msg_id msg_empty)),
                         (''title'', if truthy JUndefined then JUndefined else JStr default_title),
                         (''message'', JUndefined),
                         (''notificationType'',
                            if truthy JUndefined then JUndefined else JStr ''info''),
                         (''timestamp'', JStr (msg_publishTime msg_empty)),
                         (''source'', JStr ''pubsub'')])]))"
    by blast
  then have b: "journal (handlePubSubMessage toy_platform msg_empty st_one) =
       [Wrote 0 (SSE (JObj [(''type'', JStr ''notification''),
                     (''data'', JObj
                        [(''id'', JStr ''m1''),
                         (''title'', JStr default_title),
                         (''message'', JUndefined),
                         (''notificationType'', JStr ''info''),
                         (''timestamp'', JStr ''2024-01-01T00:00:00.000Z''),
                         (''source'', JStr ''pubsub'')])])),
        Acked ''m1'']"
    and c: "console (handlePubSubMessage toy_platform msg_empty st_one) =
       [LogPubSubReceived (JObj []), LogDelivered 1]"
    and f: "frames (sinks (handlePubSubMessage toy_platform msg_empty st_one) 0) =
       [SSE (JObj [(''type'', JStr ''notification''),
                     (''data'', JObj
                        [(''id'', JStr ''m1''),
                         (''title'', JStr default_title),
                         (''message'', JUndefined),
                         (''notificationType'', JStr ''info''),
                         (''timestamp'', JStr ''2024-01-01T00:00:00.000Z''),
                         (''source'', JStr ''pubsub'')])])]"
    by (simp_all add: s i)
  from T2 p2 s i have d: "handlePubSubMessage toy_platform msg_bad st_one =
       st_one\<lparr>console := [LogMessageError], acked := [''m3''], journal := [Acked ''m3'']\<rparr>"
    by simp
  from T3 p3 have "handlePubSubMessage toy_platform msg_null st_one =
       st_one\<lparr>console := console st_one @ [LogPubSubReceived JNull, LogMessageError],
             acked := acked st_one @ [msg_id msg_null],
             journal := journal st_one @ [Acked (msg_id msg_null)]\<rparr>" by blast
  then have e: "handlePubSubMessage toy_platform msg_null st_one =
       st_one\<lparr>console := [LogPubSubReceived JNull, LogMessageError], acked := [''m2''],
              journal := [Acked ''m2'']\<rparr>"
    by (simp add: s i)
  from wf a b c f d e show ?thesis by blast
qed

text \<open>
  C6. In demo mode every POST to \<^verbatim>\<open>/notify\<close> and to \<^verbatim>\<open>/pubsub/push\<close>, whatever the
  body, is answered 403 and leaves the whole server state as it was: no frame is
  written, no line is logged by a broadcast, nothing is published, and the registry is
  unchanged.
\<close>

theorem demo_mode_rejects_publish:
  assumes "DEMO_MODE st"
  shows "post_notify e body st =
           (Reply 403 (JObj [(''error'', JStr demo_forbidden), (''demoMode'', JBool True)]), st)
       \<and> post_pubsub_push P body st =
           (Reply 403 (JObj [(''error'', JStr ''Demo mode''), (''demoMode'', JBool True)]), st)"
  using assms by (simp add: post_notify_def post_pubsub_push_def)

theorem demo_mode_rejects_publish_witness:
  "DEMO_MODE st_demo
   \<and> post_notify env0 (JObj [(''message'', JStr ''hello'')]) st_demo =
       (Reply 403 (JObj [(''error'', JStr demo_forbidden), (''demoMode'', JBool True)]), st_demo)
   \<and> post_pubsub_push toy_platform push_empty st_demo =
       (Reply 403 (JObj [(''error'', JStr ''Demo mode''), (''demoMode'', JBool True)]), st_demo)"
proof -
  have d: "DEMO_MODE st_demo" by (simp add: st_demo_def)
  from demo_mode_rejects_publish [OF d, of env0 "JObj [(''message'', JStr ''hello'')]"
      toy_platform] d
  have "post_notify env0 (JObj [(''message'', JStr ''hello'')]) st_demo =
       (Reply 403 (JObj [(''error'', JStr demo_forbidden), (''demoMode'', JBool True)]), st_demo)"
    by blast
  moreover from demo_mode_rejects_publish [OF d, of env0 push_empty toy_platform]
  have "post_pubsub_push toy_platform push_empty st_demo =
       (Reply 403 (JObj [(''error'', JStr ''Demo mode''), (''demoMode'', JBool True)]), st_demo)"
    by blast
  ultimately show ?thesis using d by blast
qed

text \<open>
  C9. Outside demo mode, a POST to \<^verbatim>\<open>/notify\<close> whose \<^verbatim>\<open>message\<close> field is missing
  or falsy (the empty string among others) is answered 400 and leaves the whole server
  state as it was: nothing is broadcast and nothing is handed to the topic.
\<close>

theorem notify_rejects_empty_message:
  assumes "\<not> DEMO_MODE st"
    and "js_get body ''message'' = Some m"
    and "\<not> truthy m"
  shows "post_notify e body st = (Reply 400 (JObj [(''error'', JStr message_required)]), st)"
proof -
  from assms(2) have nn: "body \<noteq> JNull" "body \<noteq> JUndefined" by auto
  then obtain t where t: "js_get body ''title'' = Some t" by (cases body) auto
  from nn obtain ty where ty: "js_get body ''type'' = Some ty" by (cases body) auto
  from assms t ty show ?thesis by (simp add: post_notify_def Let_def)
qed

theorem notify_rejects_empty_message_witness:
  "\<not> DEMO_MODE st_one \<and> topic st_one
   \<and> js_get (JObj [(''title'', JStr ''T'')]) ''message'' = Some JUndefined
   \<and> js_get (JObj [(''title'', JStr ''T''), (''message'', JStr [])]) ''message'' = Some (JStr [])
   \<and> post_notify env0 (JObj [(''title'', JStr ''T'')]) st_one =
       (Reply 400 (JObj [(''error'', JStr message_required)]), st_one)
   \<and> post_notify env0 (JObj [(''title'', JStr ''T''), (''message'', JStr [])]) st_abc =
       (Reply 400 (JObj [(''error'', JStr message_required)]), st_abc)"
proof -
  have d: "\<not> DEMO_MODE st_one" "\<not> DEMO_MODE st_abc" "topic st_one"
    by (simp_all add: st_one_def st_abc_def)
  have g1: "js_get (JObj [(''title'', JStr ''T'')]) ''message'' = Some JUndefined" by simp
  have g2: "js_get (JObj [(''title'', JStr ''T''), (''message'', JStr [])]) ''message'' =
      Some (JStr [])" by simp
  have f: "\<not> truthy JUndefined" "\<not> truthy (JStr [])" by simp_all
  note a = notify_rejects_empty_message [OF d(1) g1 f(1), of env0]
  note b = notify_rejects_empty_message [OF d(2) g2 f(2), of env0]
  from a b d g1 g2 show ?thesis by blast
qed

section \<open>Properties of the connection lifecycle\<close>

text \<open>
  C7. \<^verbatim>\<open>/events\<close> on a response object that is not registered and has not been
  written to. When the handshake write throws, the handler stops there: nothing is
  registered, logged or scheduled, and the state is as before; so the write comes
  before the registration. When the write returns, the handshake is the only frame of
  the sink, the journal shows the write and then \<^verbatim>\<open>clients.set\<close>, no other sink is
  written, and the connection is registered under its client id. The handshake carries
  the client id and the flags \<^verbatim>\<open>pubsubEnabled\<close> and \<^verbatim>\<open>demoMode\<close> (in
  \<^verbatim>\<open>src/server.js\<close>, which has no demo mode, only the first). A broadcast before the
  request does not reach the sink, and after a broadcast that follows the request the
  handshake is still the first frame of the sink. The client id is the query parameter
  when that is a non-empty string, and \<^verbatim>\<open>client_${Date.now()}\<close> otherwise.
\<close>

theorem events_ack_before_registration:
  assumes wf: "wf_map (clients st)"
    and unreg: "res \<notin> snd ` set (snapshot st)"
    and fresh: "frames (sinks st res) = []"
  shows "(failing (sinks st res) \<longrightarrow>
            get_events e q res st = (Uncaught WriteError, st)
          \<and> get_events_plain e q res st = (Uncaught WriteError, st))
       \<and> (\<not> failing (sinks st res) \<longrightarrow>
            fst (get_events e q res st) = EventStream
          \<and> frames (sinks (snd (get_events e q res st)) res) =
              [SSE (JObj [(''type'', JStr ''connected''), (''clientId'', JStr (client_id e q)),
                     (''message'', JStr connected_message),
                     (''pubsubEnabled'', JBool (subscription st)),
                     (''demoMode'', JBool (DEMO_MODE st))])]
          \<and> journal (snd (get_events e q res st)) =
              journal st @
              [Wrote res
                 (SSE (JObj [(''type'', JStr ''connected''), (''clientId'', JStr (client_id e q)),
                     (''message'', JStr connected_message),
                     (''pubsubEnabled'', JBool (subscription st)),
                     (''demoMode'', JBool (DEMO_MODE st))])),
               Registered (client_id e q) res]
          \<and> (\<forall>h. h \<noteq> res \<longrightarrow> sinks (snd (get_events e q res st)) h = sinks st h)
          \<and> clients (snd (get_events e q res st)) = map_set (client_id e q) res (clients st)
          \<and> (client_id e q, res) \<in> set (snapshot (snd (get_events e q res st)))
          \<and> console (snd (get_events e q res st)) =
              console st @
              [LogClientConnected (client_id e q)
                 (map_size (map_set (client_id e q) res (clients st)))]
          \<and> hd (frames (sinks (snd (broadcastToClients note (snd (get_events e q res st)))) res)) =
              SSE (JObj [(''type'', JStr ''connected''), (''clientId'', JStr (client_id e q)),
                     (''message'', JStr connected_message),
                     (''pubsubEnabled'', JBool (subscription st)),
                     (''demoMode'', JBool (DEMO_MODE st))])
          \<and> fst (get_events_plain e q res st) = EventStream
          \<and> frames (sinks (snd (get_events_plain e q res st)) res) =
              [SSE (JObj [(''type'', JStr ''connected''), (''clientId'', JStr (client_id e q)),
                     (''message'', JStr connected_message),
                     (''pubsubEnabled'', JBool (subscription st))])]
          \<and> journal (snd (get_events_plain e q res st)) =
              journal st @
              [Wrote res
                 (SSE (JObj [(''type'', JStr ''connected''), (''clientId'', JStr (client_id e q)),
                     (''message'', JStr connected_message),
                     (''pubsubEnabled'', JBool (subscription st))])),
               Registered (client_id e q) res]
          \<and> (\<forall>h. h \<noteq> res \<longrightarrow> sinks (snd (get_events_plain e q res st)) h = sinks st h)
          \<and> clients (snd (get_events_plain e q res st)) =
              map_set (client_id e q) res (clients st)
          \<and> console (snd (get_events_plain e q res st)) =
              console st @
              [LogClientConnected (client_id e q)
                 (map_size (map_set (client_id e q) res (clients st)))]
          \<and> timers (snd (get_events_plain e q res st)) = timers st
          \<and> hd (frames (sinks (snd (broadcastToClients note
                 (snd (get_events_plain e q res st)))) res)) =
              SSE (JObj [(''type'', JStr ''connected''), (''clientId'', JStr (client_id e q)),
                     (''message'', JStr connected_message),
                     (''pubsubEnabled'', JBool (subscription st))]))
       \<and> frames (sinks (snd (broadcastToClients note st)) res) = []
       \<and> (\<forall>s. q = Some s \<and> s \<noteq> [] \<longrightarrow> client_id e q = s)
       \<and> (q = None \<or> q = Some [] \<longrightarrow> client_id e q = ''client_'' @ decimal (date_now e))"
proof (intro conjI impI allI)
  assume bad: "failing (sinks st res)"
  show "get_events e q res st = (Uncaught WriteError, st)"
    using bad by (rule get_events_failing)
  show "get_events_plain e q res st = (Uncaught WriteError, st)"
    using bad by (rule get_events_plain_failing)
next
  have "filter (\<lambda>e. snd e = res \<and> \<not> failing (sinks st res)) (snapshot st) = []"
    using unreg by (auto simp: filter_empty_conv)
  with wf fresh show "frames (sinks (snd (broadcastToClients note st)) res) = []"
    by (simp add: broadcast_frames)
next
  fix s assume "q = Some s \<and> s \<noteq> []"
  then show "client_id e q = s" by (simp add: client_id_def)
next
  assume "q = None \<or> q = Some []"
  then show "client_id e q = ''client_'' @ decimal (date_now e)"
    by (cases q) (simp_all add: client_id_def)
next
  assume ok: "\<not> failing (sinks st res)"
  let ?ack = "SSE (JObj [(''type'', JStr ''connected''), (''clientId'', JStr (client_id e q)),
                     (''message'', JStr connected_message),
                     (''pubsubEnabled'', JBool (subscription st)),
                     (''demoMode'', JBool (DEMO_MODE st))])"
  let ?st' = "snd (get_events e q res st)"
  note g = get_events_accepting [OF ok, of e q]
  have ce: "SSE (connected_event (client_id e q) st) = ?ack"
    by (simp add: connected_event_def)
  show "fst (get_events e q res st) = EventStream" by (simp add: g)
  show f: "frames (sinks ?st' res) = [?ack]"
    using fresh by (simp add: g register_client_fields ce)
  show "journal ?st' = journal st @ [Wrote res ?ack, Registered (client_id e q) res]"
    by (simp add: g register_client_more_fields ce)
  show "clients ?st' = map_set (client_id e q) res (clients st)"
    by (simp add: g register_client_fields)
  then show "(client_id e q, res) \<in> set (snapshot ?st')"
    by (simp add: snapshot_def entries_map_set_mem)
  show "console ?st' =
      console st @
      [LogClientConnected (client_id e q) (map_size (map_set (client_id e q) res (clients st)))]"
    by (simp add: g register_client_more_fields)
  have wf': "wf_map (clients ?st')"
    using wf by (rule wf_map_get_events)
  show "hd (frames (sinks (snd (broadcastToClients note ?st')) res)) = ?ack"
    using f by (simp add: broadcast_frames [OF wf'])
next
  fix h assume ok: "\<not> failing (sinks st res)" and "h \<noteq> res"
  then show "sinks (snd (get_events e q res st)) h = sinks st h"
    by (simp add: get_events_accepting register_client_fields)
next
  fix h assume ok: "\<not> failing (sinks st res)" and "h \<noteq> res"
  then show "sinks (snd (get_events_plain e q res st)) h = sinks st h"
    by (simp add: get_events_plain_accepting register_client_plain_fields)
next
  assume ok: "\<not> failing (sinks st res)"
  let ?ack = "SSE (JObj [(''type'', JStr ''connected''), (''clientId'', JStr (client_id e q)),
                     (''message'', JStr connected_message),
                     (''pubsubEnabled'', JBool (subscription st))])"
  let ?st' = "snd (get_events_plain e q res st)"
  note g = get_events_plain_accepting [OF ok, of e q]
  have ce: "SSE (connected_event_plain (client_id e q) st) = ?ack"
    by (simp add: connected_event_plain_def)
  show "fst (get_events_plain e q res st) = EventStream" by (simp add: g)
  show f: "frames (sinks ?st' res) = [?ack]"
    using fresh by (simp add: g register_client_plain_fields ce)
  show "journal ?st' = journal st @ [Wrote res ?ack, Registered (client_id e q) res]"
    by (simp add: g register_client_plain_fields ce)
  show c: "clients ?st' = map_set (client_id e q) res (clients st)"
    by (simp add: g register_client_plain_fields)
  show "console ?st' =
      console st @
      [LogClientConnected (client_id e q) (map_size (map_set (client_id e q) res (clients st)))]"
    by (simp add: g register_client_plain_fields)
  show "timers ?st' = timers st"
    by (simp add: g register_client_plain_fields)
  have wf': "wf_map (clients ?st')"
    using wf by (simp add: c wf_map_set)
  show "hd (frames (sinks (snd (broadcastToClients note ?st')) res)) = ?ack"
    using f by (simp add: broadcast_frames [OF wf'])
qed



theorem events_ack_before_registration_witness:
  "wf_map (clients st_two)
   \<and> 1 \<notin> snd ` set (snapshot st_two) \<and> 2 \<notin> snd ` set (snapshot st_two)
   \<and> frames (sinks st_two 1) = [] \<and> frames (sinks st_two 2) = []
   \<and> \<not> failing (sinks st_two 1) \<and> failing (sinks st_two 2)
   \<and> get_events env0 None 2 st_two = (Uncaught WriteError, st_two)
   \<and> get_events_plain env0 None 2 st_two = (Uncaught WriteError, st_two)
   \<and> client_id env0 None = ''client_0''
   \<and> frames (sinks (snd (get_events env0 None 1 st_two)) 1) =
       [SSE (JObj [(''type'', JStr ''connected''), (''clientId'', JStr ''client_0''),
                   (''message'', JStr connected_message),
                   (''pubsubEnabled'', JBool True), (''demoMode'', JBool False)])]
   \<and> clients (snd (get_events env0 None 1 st_two)) = [Some (''a'', 0), Some (''client_0'', 1)]
   \<and> frames (sinks (snd (get_events_plain env0 (Some ''b'') 1 st_two)) 1) =
       [SSE (JObj [(''type'', JStr ''connected''), (''clientId'', JStr ''b''),
                   (''message'', JStr connected_message),
                   (''pubsubEnabled'', JBool True)])]"
proof -
  have wf: "wf_map (clients st_two)" by (simp add: st_two_def wf_map_def map_keys_def)
  have u1: "1 \<notin> snd ` set (snapshot st_two)" and u2: "2 \<notin> snd ` set (snapshot st_two)"
    by (simp_all add: st_two_def snapshot_def)
  have f1: "frames (sinks st_two 1) = []" and f2: "frames (sinks st_two 2) = []"
    by (simp_all add: st_two_def)
  have ok: "\<not> failing (sinks st_two 1)" and bad: "failing (sinks st_two 2)"
    by (simp_all add: st_two_def)
  have fl: "subscription st_two = True" "DEMO_MODE st_two = False"
    "clients st_two = [Some (''a'', 0)]"
    by (simp_all add: st_two_def)
  note B = events_ack_before_registration [OF wf u2 f2, where e = env0 and q = None]
  note A = events_ack_before_registration [OF wf u1 f1, where e = env0 and q = None]
  note P = events_ack_before_registration [OF wf u1 f1, where e = env0 and q = "Some ''b''"]
  from B bad have b: "get_events env0 None 2 st_two = (Uncaught WriteError, st_two)"
    "get_events_plain env0 None 2 st_two = (Uncaught WriteError, st_two)"
    by blast+
  from A have "None = None \<or> None = Some [] \<longrightarrow>
      client_id env0 None = ''client_'' @ decimal (date_now env0)" by blast
  then have cid: "client_id env0 None = ''client_0''"
    by (simp add: env0_def digit_def)
  from P have "(\<forall>s. Some ''b'' = Some s \<and> s \<noteq> [] \<longrightarrow> client_id env0 (Some ''b'') = s)"
    by blast
  then have cidb: "client_id env0 (Some ''b'') = ''b''" by simp
  from A ok have "frames (sinks (snd (get_events env0 None 1 st_two)) 1) =
      [SSE (JObj [(''type'', JStr ''connected''), (''clientId'', JStr (client_id env0 None)),
                     (''message'', JStr connected_message),
                     (''pubsubEnabled'', JBool (subscription st_two)),
                     (''demoMode'', JBool (DEMO_MODE st_two))])]
     \<and> clients (snd (get_events env0 None 1 st_two)) =
         map_set (client_id env0 None) 1 (clients st_two)" by blast
  then have a: "frames (sinks (snd (get_events env0 None 1 st_two)) 1) =
       [SSE (JObj [(''type'', JStr ''connected''), (''clientId'', JStr ''client_0''),
                   (''message'', JStr connected_message),
                   (''pubsubEnabled'', JBool True), (''demoMode'', JBool False)])]"
    and c: "clients (snd (get_events env0 None 1 st_two)) =
      [Some (''a'', 0), Some (''client_0'', 1)]"
    by (simp_all add: cid fl)
  from P ok have "frames (sinks (snd (get_events_plain env0 (Some ''b'') 1 st_two)) 1) =
      [SSE (JObj [(''type'', JStr ''connected''),
                  (''clientId'', JStr (client_id env0 (Some ''b''))),
                     (''message'', JStr connected_message),
                     (''pubsubEnabled'', JBool (subscription st_two))])]" by blast
  then have p: "frames (sinks (snd (get_events_plain env0 (Some ''b'') 1 st_two)) 1) =
       [SSE (JObj [(''type'', JStr ''connected''), (''clientId'', JStr ''b''),
                   (''message'', JStr connected_message),
                   (''pubsubEnabled'', JBool True)])]"
    by (simp add: cidb fl)
  from wf u1 u2 f1 f2 ok bad b cid a c p show ?thesis by blast
qed

section \<open>Properties of the demo generator\<close>

text \<open>
  C8. A connection is opened in demo mode on a new response object whose writes do not
  throw; then timers fire, connections close, requests for other response objects and
  publish requests arrive, in any order. The opening schedules the welcome timer and
  one one-shot timer per script entry, at 3000 + 5000 * index milliseconds. Every
  script envelope that reaches the client is the envelope of one script entry, with
  the id \<^verbatim>\<open>demo_${Date.now()}_${index}\<close> and the source \<^verbatim>\<open>demo\<close>; the ids of the script
  envelopes received are pairwise distinct, and no script entry is received twice.
  When the connection is still open and none of its script timers is pending, every
  script entry has been received exactly once: the client has received as many script
  envelopes as the script has entries. After the connection has closed the client
  receives nothing more, whatever follows. A timer that fires on a closed connection
  is dropped from the pending timers and changes neither what the client received nor
  the registry nor the console. A due script timer that fires on an open connection is
  dropped as well, and the client receives its envelope.
\<close>

theorem demo_script_delivery:
  assumes demo: "DEMO_MODE st"
    and fresh: "sinks st res = \<lparr>failing = False, closed = False, frames = [], received = []\<rparr>"
    and notimers: "\<forall>t\<in>set (timers st). \<not> is_script_task res (task t)"
    and others: "\<forall>ev\<in>set evs. opens ev \<noteq> Some res"
  shows "timers (snd (get_events e q res st)) =
           timers st @
           \<lparr>due = date_now e + 1000, task = WelcomeTask res\<rparr> #
           map (\<lambda>(i, s). \<lparr>due = date_now e + (3000 + i * 5000), task = DemoTask res s i\<rparr>)
             (enumerate 0 DEMO_NOTIFICATIONS)
       \<and> (\<forall>fr\<in>set (script_received (run P evs (snd (get_events e q res st))) res).
            \<exists>(e'::env) i. i < length DEMO_NOTIFICATIONS \<and>
              fr = SSE (JObj [(''type'', JStr ''notification''),
                     (''data'', JObj
                        [(''id'', JStr (''demo_'' @ decimal (date_now e') @ ''_'' @ decimal i)),
                         (''title'', JStr (s_title (DEMO_NOTIFICATIONS ! i))),
                         (''message'', JStr (s_message (DEMO_NOTIFICATIONS ! i))),
                         (''notificationType'', JStr (s_type (DEMO_NOTIFICATIONS ! i))),
                         (''timestamp'', JStr (date_iso e')),
                         (''source'', JStr ''demo'')])]))
       \<and> distinct (map frame_id (script_received (run P evs (snd (get_events e q res st))) res))
       \<and> length (script_received (run P evs (snd (get_events e q res st))) res)
           \<le> length DEMO_NOTIFICATIONS
       \<and> (\<forall>i<length DEMO_NOTIFICATIONS.
            length (filter
                (\<lambda>fr. \<exists>e'::env. fr = SSE (demo_notification e' (DEMO_NOTIFICATIONS ! i) i))
                (script_received (run P evs (snd (get_events e q res st))) res)) \<le> 1)
       \<and> (\<not> closed (sinks (run P evs (snd (get_events e q res st))) res)
          \<and> pending_tasks (run P evs (snd (get_events e q res st))) res = [] \<longrightarrow>
            length (script_received (run P evs (snd (get_events e q res st))) res)
              = length DEMO_NOTIFICATIONS
          \<and> (\<forall>i<length DEMO_NOTIFICATIONS.
               length (filter
                   (\<lambda>fr. \<exists>e'::env. fr = SSE (demo_notification e' (DEMO_NOTIFICATIONS ! i) i))
                   (script_received (run P evs (snd (get_events e q res st))) res)) = 1))
       \<and> (\<forall>evs1 k evs2. evs = evs1 @ Close res k # evs2 \<longrightarrow>
            received (sinks (run P evs (snd (get_events e q res st))) res) =
            received (sinks (run P (evs1 @ [Close res k]) (snd (get_events e q res st))) res))
       \<and> (\<forall>e' i st' st''. closed (sinks st' res) \<and> fire_timer e' i st' = Some st'' \<longrightarrow>
            received (sinks st'' res) = received (sinks st' res)
          \<and> clients st'' = clients st' \<and> console st'' = console st'
          \<and> timers st'' = take i (timers st') @ drop (Suc i) (timers st'))
       \<and> (\<forall>(e'::env) i st' s j.
            \<not> closed (sinks st' res) \<and> \<not> failing (sinks st' res)
            \<and> i < length (timers st') \<and> due (timers st' ! i) \<le> date_now e'
            \<and> task (timers st' ! i) = DemoTask res s j \<longrightarrow>
            (\<exists>st''. fire_timer e' i st' = Some st''
               \<and> received (sinks st'' res) =
                   received (sinks st' res) @
                   [SSE (JObj [(''type'', JStr ''notification''),
                     (''data'', JObj
                        [(''id'', JStr (''demo_'' @ decimal (date_now e') @ ''_'' @ decimal j)),
                         (''title'', JStr (s_title s)),
                         (''message'', JStr (s_message s)),
                         (''notificationType'', JStr (s_type s)),
                         (''timestamp'', JStr (date_iso e')),
                         (''source'', JStr ''demo'')])])]
               \<and> timers st'' = take i (timers st') @ drop (Suc i) (timers st')))"
proof (intro conjI)
  let ?st1 = "snd (get_events e q res st)"
  let ?fin = "run P evs ?st1"
  let ?L = "length DEMO_NOTIFICATIONS"
  from fresh have ok: "\<not> failing (sinks st res)" by simp
  have inv1: "script_inv res ?st1"
    using demo fresh notimers by (rule script_inv_open)
  have inv: "script_inv res ?fin"
    using inv1 others by (rule script_inv_run)
  show "timers ?st1 =
           timers st @
           \<lparr>due = date_now e + 1000, task = WelcomeTask res\<rparr> #
           map (\<lambda>(i, s). \<lparr>due = date_now e + (3000 + i * 5000), task = DemoTask res s i\<rparr>)
             (enumerate 0 DEMO_NOTIFICATIONS)"
    using demo ok by (simp add: get_events_accepting timers_register_client)
  show "distinct (map frame_id (script_received ?fin res))"
  proof -
    from inv have "distinct (map frame_mark (script_received ?fin res))"
      by (simp add: script_inv_def)
    then have "distinct (map (\<lambda>fr. (case frame_id fr of JStr s \<Rightarrow> last s | _ \<Rightarrow> CHR ''?''))
        (script_received ?fin res))"
      unfolding frame_mark_def [abs_def] .
    then show ?thesis by (rule distinct_map_inner)
  qed
  show "length (script_received ?fin res) \<le> ?L"
    using inv by (simp add: script_inv_def)
  show "\<forall>i<?L. length (filter
                (\<lambda>fr. \<exists>e'::env. fr = SSE (demo_notification e' (DEMO_NOTIFICATIONS ! i) i))
                (script_received ?fin res)) \<le> 1"
    using script_inv_at_most_once [OF inv] by blast
  show "\<not> closed (sinks ?fin res) \<and> pending_tasks ?fin res = [] \<longrightarrow>
      length (script_received ?fin res) = ?L
      \<and> (\<forall>i<?L. length (filter
                (\<lambda>fr. \<exists>e'::env. fr = SSE (demo_notification e' (DEMO_NOTIFICATIONS ! i) i))
                (script_received ?fin res)) = 1)"
  proof
    assume a: "\<not> closed (sinks ?fin res) \<and> pending_tasks ?fin res = []"
    from inv have "\<not> closed (sinks ?fin res) \<longrightarrow>
        length (script_received ?fin res) + length (pending_tasks ?fin res) = ?L"
      unfolding script_inv_def by blast
    with a have full: "length (script_received ?fin res) = ?L" by simp
    then show "length (script_received ?fin res) = ?L
      \<and> (\<forall>i<?L. length (filter
                (\<lambda>fr. \<exists>e'::env. fr = SSE (demo_notification e' (DEMO_NOTIFICATIONS ! i) i))
                (script_received ?fin res)) = 1)"
      using script_inv_exactly_once [OF inv _ full] by blast
  qed
  show "\<forall>fr\<in>set (script_received ?fin res).
        \<exists>(e'::env) i. i < ?L \<and>
          fr = SSE (JObj [(''type'', JStr ''notification''),
                     (''data'', JObj
                        [(''id'', JStr (''demo_'' @ decimal (date_now e') @ ''_'' @ decimal i)),
                         (''title'', JStr (s_title (DEMO_NOTIFICATIONS ! i))),
                         (''message'', JStr (s_message (DEMO_NOTIFICATIONS ! i))),
                         (''notificationType'', JStr (s_type (DEMO_NOTIFICATIONS ! i))),
                         (''timestamp'', JStr (date_iso e')),
                         (''source'', JStr ''demo'')])])"
  proof
    fix fr assume "fr \<in> set (script_received ?fin res)"
    with inv obtain e' i where i: "i < ?L"
      and fr: "fr = SSE (demo_notification e' (DEMO_NOTIFICATIONS ! i) i)"
      unfolding script_inv_def by blast
    have h: "fr = SSE (JObj [(''type'', JStr ''notification''),
                     (''data'', JObj
                        [(''id'', JStr (''demo_'' @ decimal (date_now e') @ ''_'' @ decimal i)),
                         (''title'', JStr (s_title (DEMO_NOTIFICATIONS ! i))),
                         (''message'', JStr (s_message (DEMO_NOTIFICATIONS ! i))),
                         (''notificationType'', JStr (s_type (DEMO_NOTIFICATIONS ! i))),
                         (''timestamp'', JStr (date_iso e')),
                         (''source'', JStr ''demo'')])])"
      unfolding fr by (simp add: demo_notification_def notification_def demo_id_def)
    show "\<exists>(e'::env) i. i < ?L \<and>
          fr = SSE (JObj [(''type'', JStr ''notification''),
                     (''data'', JObj
                        [(''id'', JStr (''demo_'' @ decimal (date_now e') @ ''_'' @ decimal i)),
                         (''title'', JStr (s_title (DEMO_NOTIFICATIONS ! i))),
                         (''message'', JStr (s_message (DEMO_NOTIFICATIONS ! i))),
                         (''notificationType'', JStr (s_type (DEMO_NOTIFICATIONS ! i))),
                         (''timestamp'', JStr (date_iso e')),
                         (''source'', JStr ''demo'')])])"
      using i h by (intro exI [of _ e'] exI [of _ i] conjI)
  qed
  show "\<forall>evs1 k evs2. evs = evs1 @ Close res k # evs2 \<longrightarrow>
      received (sinks ?fin res) = received (sinks (run P (evs1 @ [Close res k]) ?st1) res)"
  proof (intro allI impI)
    fix evs1 k evs2 assume that: "evs = evs1 @ Close res k # evs2"
    let ?mid = "run P (evs1 @ [Close res k]) ?st1"
    from that have fin: "?fin = run P evs2 ?mid"
      by (simp add: run_def)
    from that others have o1: "\<forall>ev\<in>set (evs1 @ [Close res k]). opens ev \<noteq> Some res" by auto
    have d: "DEMO_MODE ?mid" using inv1 o1 by (rule DEMO_MODE_run)
    have c: "closed (sinks ?mid res)"
      by (simp add: run_append) (simp add: run_def connection_closes_fields)
    from frozen_run [OF d c, of P evs2] fin
    show "received (sinks ?fin res) = received (sinks ?mid res)" by simp
  qed
  show "\<forall>e' i st' st''. closed (sinks st' res) \<and> fire_timer e' i st' = Some st'' \<longrightarrow>
            received (sinks st'' res) = received (sinks st' res)
          \<and> clients st'' = clients st' \<and> console st'' = console st'
          \<and> timers st'' = take i (timers st') @ drop (Suc i) (timers st')"
    using fire_timer_closed by blast
  show "\<forall>(e'::env) i st' s j.
            \<not> closed (sinks st' res) \<and> \<not> failing (sinks st' res)
            \<and> i < length (timers st') \<and> due (timers st' ! i) \<le> date_now e'
            \<and> task (timers st' ! i) = DemoTask res s j \<longrightarrow>
            (\<exists>st''. fire_timer e' i st' = Some st''
               \<and> received (sinks st'' res) =
                   received (sinks st' res) @
                   [SSE (JObj [(''type'', JStr ''notification''),
                     (''data'', JObj
                        [(''id'', JStr (''demo_'' @ decimal (date_now e') @ ''_'' @ decimal j)),
                         (''title'', JStr (s_title s)),
                         (''message'', JStr (s_message s)),
                         (''notificationType'', JStr (s_type s)),
                         (''timestamp'', JStr (date_iso e')),
                         (''source'', JStr ''demo'')])])]
               \<and> timers st'' = take i (timers st') @ drop (Suc i) (timers st'))"
  proof (intro allI impI)
    fix e' :: env and i and st' :: server and s j
    assume a: "\<not> closed (sinks st' res) \<and> \<not> failing (sinks st' res)
            \<and> i < length (timers st') \<and> due (timers st' ! i) \<le> date_now e'
            \<and> task (timers st' ! i) = DemoTask res s j"
    have lit: "demo_notification e' s j =
        JObj [(''type'', JStr ''notification''),
                     (''data'', JObj
                        [(''id'', JStr (''demo_'' @ decimal (date_now e') @ ''_'' @ decimal j)),
                         (''title'', JStr (s_title s)),
                         (''message'', JStr (s_message s)),
                         (''notificationType'', JStr (s_type s)),
                         (''timestamp'', JStr (date_iso e')),
                         (''source'', JStr ''demo'')])]"
      by (simp add: demo_notification_def notification_def demo_id_def)
    from a have "\<exists>st''. fire_timer e' i st' = Some st''
       \<and> received (sinks st'' res) =
           received (sinks st' res) @ [SSE (demo_notification e' s j)]
       \<and> timers st'' = take i (timers st') @ drop (Suc i) (timers st')"
      by (intro fire_timer_open) simp_all
    then show "\<exists>st''. fire_timer e' i st' = Some st''
               \<and> received (sinks st'' res) =
                   received (sinks st' res) @
                   [SSE (JObj [(''type'', JStr ''notification''),
                     (''data'', JObj
                        [(''id'', JStr (''demo_'' @ decimal (date_now e') @ ''_'' @ decimal j)),
                         (''title'', JStr (s_title s)),
                         (''message'', JStr (s_message s)),
                         (''notificationType'', JStr (s_type s)),
                         (''timestamp'', JStr (date_iso e')),
                         (''source'', JStr ''demo'')])])]
               \<and> timers st'' = take i (timers st') @ drop (Suc i) (timers st')"
      unfolding lit .
  qed
qed


theorem demo_script_delivery_witness:
  "DEMO_MODE st_demo
   \<and> sinks st_demo 0 = \<lparr>failing = False, closed = False, frames = [], received = []\<rparr>
   \<and> timers st_demo = []
   \<and> length (script_received
        (run toy_platform [Fire env1 0, Fire env3 0, Fire env8 0, Fire env13 0, Fire env18 0]
           demo_opened) 0) = 4
   \<and> distinct (map frame_id (script_received
        (run toy_platform [Fire env1 0, Fire env3 0, Fire env8 0, Fire env13 0, Fire env18 0]
           demo_opened) 0))
   \<and> length (filter
        (\<lambda>fr. \<exists>e'::env. fr = SSE (demo_notification e' (DEMO_NOTIFICATIONS ! 2) 2))
        (script_received
          (run toy_platform [Fire env1 0, Fire env3 0, Fire env8 0, Fire env13 0, Fire env18 0]
             demo_opened) 0)) = 1
   \<and> received (sinks
        (run toy_platform [Fire env1 0, Fire env3 0, Close 0 ''a'', Fire env8 0] demo_opened) 0) =
       [SSE (connected_event ''a'' st_demo), SSE (welcomeNotification env1),
        SSE (demo_notification env3 (DEMO_NOTIFICATIONS ! 0) 0)]
   \<and> received (sinks (run toy_platform [Fire env1 0, Fire env3 0] demo_closed) 0) =
       [SSE (connected_event ''a'' st_demo)]"
proof -
  let ?full = "[Fire env1 0, Fire env3 0, Fire env8 0, Fire env13 0, Fire env18 0]"
  let ?early = "[Fire env1 0, Fire env3 0, Close 0 ''a'', Fire env8 0]"
  have demo: "DEMO_MODE st_demo"
    and fresh: "sinks st_demo 0 = \<lparr>failing = False, closed = False, frames = [], received = []\<rparr>"
    and t0: "timers st_demo = []"
    by (simp_all add: st_demo_def)
  from t0 have notimers: "\<forall>t\<in>set (timers st_demo). \<not> is_script_task 0 (task t)" by simp
  have o1: "\<forall>ev\<in>set ?full. opens ev \<noteq> Some 0" by simp
  have o2: "\<forall>ev\<in>set ?early. opens ev \<noteq> Some 0" by simp
  note F = demo_script_delivery [OF demo fresh notimers o1,
      where e = env0 and q = "Some ''a''" and P = toy_platform, folded demo_opened_def]
  note E = demo_script_delivery [OF demo fresh notimers o2,
      where e = env0 and q = "Some ''a''" and P = toy_platform, folded demo_opened_def]
  have fin: "\<not> closed (sinks (run toy_platform ?full demo_opened) 0)
      \<and> pending_tasks (run toy_platform ?full demo_opened) 0 = []"
    by (simp add: demo_opened_def get_events_def sink_write_def register_client_def
        sendDemoNotificationsToClient_def set_timeout_def client_id_def st_demo_def
        env0_def env1_def env3_def env8_def env13_def env18_def fire_timer_def try_write_def
        DEMO_NOTIFICATIONS_def Let_def run_def pending_tasks_def)
  from F fin have a: "length (script_received (run toy_platform ?full demo_opened) 0) =
      length DEMO_NOTIFICATIONS" by blast
  from F fin have "\<forall>i<length DEMO_NOTIFICATIONS.
      length (filter
        (\<lambda>fr. \<exists>e'::env. fr = SSE (demo_notification e' (DEMO_NOTIFICATIONS ! i) i))
        (script_received (run toy_platform ?full demo_opened) 0)) = 1" by blast
  then have a2: "length (filter
        (\<lambda>fr. \<exists>e'::env. fr = SSE (demo_notification e' (DEMO_NOTIFICATIONS ! 2) 2))
        (script_received (run toy_platform ?full demo_opened) 0)) = 1"
    by (simp add: length_DEMO_NOTIFICATIONS)
  let ?gone = "[Close 0 ''a'', Fire env1 0, Fire env3 0]"
  have o3: "\<forall>ev\<in>set ?gone. opens ev \<noteq> Some 0" by simp
  note G = demo_script_delivery [OF demo fresh notimers o3,
      where e = env0 and q = "Some ''a''" and P = toy_platform, folded demo_opened_def]
  from G have "?gone = [] @ Close 0 ''a'' # [Fire env1 0, Fire env3 0] \<longrightarrow>
      received (sinks (run toy_platform ?gone demo_opened) 0) =
      received (sinks (run toy_platform ([] @ [Close 0 ''a'']) demo_opened) 0)" by blast
  then have "received (sinks (run toy_platform ?gone demo_opened) 0) =
      received (sinks (run toy_platform [Close 0 ''a''] demo_opened) 0)"
    by simp
  moreover have "run toy_platform ?gone demo_opened =
      run toy_platform [Fire env1 0, Fire env3 0] demo_closed"
    by (simp add: run_def demo_closed_def)
  moreover have "received (sinks (run toy_platform [Close 0 ''a''] demo_opened) 0) =
      [SSE (connected_event ''a'' st_demo)]"
    by (simp add: demo_opened_def get_events_def sink_write_def register_client_def
        sendDemoNotificationsToClient_def set_timeout_def client_id_def st_demo_def
        env0_def connection_closes_def on_close_def DEMO_NOTIFICATIONS_def Let_def run_def)
  ultimately have g: "received (sinks (run toy_platform [Fire env1 0, Fire env3 0] demo_closed) 0) =
       [SSE (connected_event ''a'' st_demo)]" by simp
  from F have b: "distinct (map frame_id (script_received (run toy_platform ?full demo_opened) 0))"
    by blast
  from E have "?early = [Fire env1 0, Fire env3 0] @ Close 0 ''a'' # [Fire env8 0] \<longrightarrow>
      received (sinks (run toy_platform ?early demo_opened) 0) =
      received (sinks (run toy_platform ([Fire env1 0, Fire env3 0] @ [Close 0 ''a''])
         demo_opened) 0)" by blast
  then have "received (sinks (run toy_platform ?early demo_opened) 0) =
      received (sinks (run toy_platform [Fire env1 0, Fire env3 0, Close 0 ''a''] demo_opened) 0)"
    by simp
  also have "\<dots> = [SSE (connected_event ''a'' st_demo), SSE (welcomeNotification env1),
        SSE (demo_notification env3 (DEMO_NOTIFICATIONS ! 0) 0)]"
    by (simp add: demo_opened_def get_events_def sink_write_def register_client_def
        sendDemoNotificationsToClient_def set_timeout_def client_id_def st_demo_def
        env0_def env1_def env3_def fire_timer_def try_write_def connection_closes_def
        on_close_def DEMO_NOTIFICATIONS_def Let_def run_def)
  finally have c: "received (sinks (run toy_platform ?early demo_opened) 0) =
      [SSE (connected_event ''a'' st_demo), SSE (welcomeNotification env1),
        SSE (demo_notification env3 (DEMO_NOTIFICATIONS ! 0) 0)]" .
  from demo fresh t0 a a2 b c g show ?thesis by (simp add: length_DEMO_NOTIFICATIONS)
qed

text \<open>
  C10. A write failure while a timer callback delivers the welcome envelope or a script
  envelope is swallowed: the server state, and with it the registry, is unchanged, and
  the connection stays registered. A broadcast to the same failing sink removes the
  connection from the registry.
\<close>

theorem private_write_failure_keeps_registration:
  assumes bad: "failing (sinks st h)"
  shows "run_task e (WelcomeTask h) st = st
       \<and> run_task e (DemoTask h s i) st = st
       \<and> (\<forall>k. wf_map (clients st) \<and> (k, h) \<in> set (snapshot st) \<longrightarrow>
            k \<in> set (map_keys (clients (run_task e (WelcomeTask h) st)))
          \<and> k \<in> set (map_keys (clients (run_task e (DemoTask h s i) st)))
          \<and> k \<notin> set (map_keys (clients (snd (broadcastToClients note st)))))"
proof (intro conjI allI impI)
  show w: "run_task e (WelcomeTask h) st = st"
    using bad by (simp add: try_write_failing)
  show d: "run_task e (DemoTask h s i) st = st"
    using bad by (simp add: try_write_failing)
  fix k assume a: "wf_map (clients st) \<and> (k, h) \<in> set (snapshot st)"
  then have "k \<in> set (map_keys (clients st))"
    by (force simp: map_keys_def snapshot_def)
  then show "k \<in> set (map_keys (clients (run_task e (WelcomeTask h) st)))"
    "k \<in> set (map_keys (clients (run_task e (DemoTask h s i) st)))"
    by (simp_all only: w d)
  have dist: "distinct (map fst (snapshot st))"
    using a by (simp add: wf_map_def map_keys_def snapshot_def)
  show "k \<notin> set (map_keys (clients (snd (broadcastToClients note st))))"
  proof
    assume "k \<in> set (map_keys (clients (snd (broadcastToClients note st))))"
    with a obtain h2 where h2: "(k, h2) \<in> set (snapshot st)" "\<not> failing (sinks st h2)"
      by (auto simp: map_keys_def broadcast_entries)
    from dist h2(1) a have "h2 = h" by (metis eq_key_imp_eq_value)
    with h2(2) bad show False by simp
  qed
qed

theorem private_write_failure_keeps_registration_witness:
  "failing (sinks st_abc 1) \<and> wf_map (clients st_abc) \<and> (''b'', 1) \<in> set (snapshot st_abc)
   \<and> run_task env3 (WelcomeTask 1) st_abc = st_abc
   \<and> run_task env3 (DemoTask 1 (DEMO_NOTIFICATIONS ! 0) 0) st_abc = st_abc
   \<and> ''b'' \<in> set (map_keys (clients (run_task env3 (WelcomeTask 1) st_abc)))
   \<and> ''b'' \<notin> set (map_keys (clients (snd (broadcastToClients note0 st_abc))))"
proof -
  have bad: "failing (sinks st_abc 1)" by (simp add: st_abc_def)
  have a: "wf_map (clients st_abc) \<and> (''b'', 1) \<in> set (snapshot st_abc)"
    by (simp add: st_abc_def wf_map_def map_keys_def snapshot_def)
  note T = private_write_failure_keeps_registration
    [OF bad, of env3 "DEMO_NOTIFICATIONS ! 0" 0 note0]
  from T a bad show ?thesis by blast
qed

end
